theory Spec2Isabelle
  imports Complex_Main "HOL-Library.Stream" "HOL-Library.Word"
begin

text \<open>
  The front end of the object detection demo, embedded function by function: the mock
  detection adapter, the statistics of the statistics panel, the shared context, and the
  detection component together with the two source buttons of the layout. Pure functions
  are HOL functions. The component is a state machine: its handlers and effects are
  functions on a state that holds the React state, the refs and the browser objects the
  component reaches, and a run is a list of events of the user and of the browser.
\<close>

section \<open>Detection results (src/types/index.ts)\<close>

text \<open>
  A \<^verbatim>\<open>DetectionResult\<close> has the fields \<^verbatim>\<open>class\<close>, \<^verbatim>\<open>confidence\<close> and \<^verbatim>\<open>bbox\<close>.
  The field \<^verbatim>\<open>class\<close> is called \<open>className\<close> here (the name the source destructures it
  to), since \<open>class\<close> is a keyword of Isabelle. JavaScript numbers are modelled as reals:
  the properties below only compare, add and divide them, and the rounding of IEEE doubles
  is left out.
\<close>

record DetectionResult =
  className :: string
  confidence :: real
  bbox :: "real \<times> real \<times> real \<times> real"

text \<open>A detection of a class with a confidence, at a fixed box; used in the examples.\<close>

abbreviation det :: "string \<Rightarrow> real \<Rightarrow> DetectionResult" where
  "det k c \<equiv> \<lparr>className = k, confidence = c, bbox = (0, 0, 0.1, 0.1)\<rparr>"

section \<open>The mock detection adapter (utils/mockDetection)\<close>

definition DETECTION_CLASSES :: "string list" where
  "DETECTION_CLASSES =
     [''person'', ''car'', ''truck'', ''motorcycle'', ''bicycle'', ''bus'',
      ''traffic light'', ''stop sign'', ''bench'', ''dog'', ''cat'']"

text \<open>
  \<^verbatim>\<open>Math.random()\<close> reads a global random source. The source is made explicit as the
  stream of the numbers it is going to return; a call takes the head and leaves the tail.
\<close>

type_synonym random_source = "real stream"

definition Math_random :: "random_source \<Rightarrow> real \<times> random_source" where
  "Math_random s = (shd s, stl s)"

definition Math_floor :: "real \<Rightarrow> int" where
  "Math_floor x = \<lfloor>x\<rfloor>"

text \<open>
  Reading an array at an index: outside the array JavaScript yields \<^verbatim>\<open>undefined\<close>,
  which every later use in this program (a property key, a template string) turns into the
  text \<^verbatim>\<open>undefined\<close>.
\<close>

definition array_get :: "string list \<Rightarrow> int \<Rightarrow> string" where
  "array_get xs i = (if 0 \<le> i \<and> i < int (length xs) then xs ! nat i else ''undefined'')"

text \<open>
  The body of the \<^verbatim>\<open>for\<close> loop, \<open>n\<close> iterations still to run. One iteration draws the
  confidence and, only when it reaches the threshold, five more numbers (class, x, y,
  width, height) and pushes the result.
\<close>

fun mockDetection_loop ::
  "real \<Rightarrow> nat \<Rightarrow> random_source \<Rightarrow> DetectionResult list \<Rightarrow> DetectionResult list \<times> random_source"
where
  "mockDetection_loop confidenceThreshold 0 s results = (results, s)"
| "mockDetection_loop confidenceThreshold (Suc n) s results =
     (let (confidence, s1) = Math_random s in
      if confidence \<ge> confidenceThreshold then
        let (r2, s2) = Math_random s1;
            classIndex = Math_floor (r2 * real (length DETECTION_CLASSES));
            className = array_get DETECTION_CLASSES classIndex;
            (r3, s3) = Math_random s2;
            x = r3 * 0.8;
            (r4, s4) = Math_random s3;
            y = r4 * 0.8;
            (r5, s5) = Math_random s4;
            width = r5 * 0.2 + 0.1;
            (r6, s6) = Math_random s5;
            height = r6 * 0.2 + 0.1
        in mockDetection_loop confidenceThreshold n s6
             (results @ [\<lparr>className = className, confidence = confidence,
                           bbox = (x, y, width, height)\<rparr>])
      else mockDetection_loop confidenceThreshold n s1 results)"

text \<open>
  \<^verbatim>\<open>mockDetection(confidenceThreshold)\<close>: the number of candidates is
  \<^verbatim>\<open>Math.floor(Math.random() * 10)\<close>; the loop runs while \<^verbatim>\<open>i < numObjects\<close>. The
  function returns the results; the random source it leaves behind is returned with them.
\<close>

definition mockDetection :: "real \<Rightarrow> random_source \<Rightarrow> DetectionResult list \<times> random_source" where
  "mockDetection confidenceThreshold s =
     (let (r1, s1) = Math_random s;
          numObjects = Math_floor (r1 * 10)
      in mockDetection_loop confidenceThreshold (nat numObjects) s1 [])"

section \<open>Statistics (components/StatisticsPanel)\<close>

subsection \<open>A plain JavaScript object used as a dictionary\<close>

text \<open>
  \<^verbatim>\<open>classCount\<close> is an object literal \<^verbatim>\<open>{}\<close> indexed by class name. Its own
  properties are kept in the order of their creation. The values the program stores are
  numbers and, when a class name meets a member inherited from \<^verbatim>\<open>Object.prototype\<close>,
  strings.
\<close>

datatype jsval = Num (the_count: nat) | Str string
  where "the_count (Str s) = 0"

type_synonym js_object = "(string \<times> jsval) list"

text \<open>
  The members every object literal inherits from \<^verbatim>\<open>Object.prototype\<close>, each with the
  text that converting it to a string gives (the spelling of the text of a built-in
  function is the engine's; V8's is used). \<^verbatim>\<open>__proto__\<close> is an accessor: reading it
  yields the prototype object itself.
\<close>

definition Object_prototype :: "(string \<times> string) list" where
  "Object_prototype =
     [(''constructor'', ''function Object() { [native code] }''),
      (''__defineGetter__'', ''function __defineGetter__() { [native code] }''),
      (''__defineSetter__'', ''function __defineSetter__() { [native code] }''),
      (''hasOwnProperty'', ''function hasOwnProperty() { [native code] }''),
      (''__lookupGetter__'', ''function __lookupGetter__() { [native code] }''),
      (''__lookupSetter__'', ''function __lookupSetter__() { [native code] }''),
      (''isPrototypeOf'', ''function isPrototypeOf() { [native code] }''),
      (''propertyIsEnumerable'', ''function propertyIsEnumerable() { [native code] }''),
      (''toString'', ''function toString() { [native code] }''),
      (''valueOf'', ''function valueOf() { [native code] }''),
      (''__proto__'', ''[object Object]''),
      (''toLocaleString'', ''function toLocaleString() { [native code] }'')]"

text \<open>What reading \<^verbatim>\<open>obj[k]\<close> finds: an own property, an inherited member, or nothing.\<close>

datatype lookup = Undefined | Own jsval | Inherited string

definition js_get :: "js_object \<Rightarrow> string \<Rightarrow> lookup" where
  "js_get obj k =
     (case map_of obj k of
        Some v \<Rightarrow> Own v
      | None \<Rightarrow> (case map_of Object_prototype k of
                   Some text \<Rightarrow> Inherited text
                 | None \<Rightarrow> Undefined))"

text \<open>
  \<^verbatim>\<open>(v || 0) + 1\<close>: a falsy \<open>v\<close> (\<^verbatim>\<open>undefined\<close>, 0, the empty string) counts as 0;
  adding 1 to a string, or to an object or function, appends the character 1 to its text.
\<close>

fun or_zero_plus_one :: "lookup \<Rightarrow> jsval" where
  "or_zero_plus_one Undefined = Num 1"
| "or_zero_plus_one (Own (Num n)) = Num (n + 1)"
| "or_zero_plus_one (Own (Str s)) = (if s = [] then Num 1 else Str (s @ ''1''))"
| "or_zero_plus_one (Inherited text) = Str (text @ ''1'')"

text \<open>
  \<^verbatim>\<open>obj[k] = v\<close> for a number or string \<open>v\<close>. The setter of \<^verbatim>\<open>__proto__\<close> ignores
  a value that is neither an object nor \<^verbatim>\<open>null\<close>, so that assignment changes nothing.
  Any other key is updated in place when the object has it and created last otherwise (the
  members of \<^verbatim>\<open>Object.prototype\<close> are writable, so assigning shadows them).
\<close>

definition js_set :: "js_object \<Rightarrow> string \<Rightarrow> jsval \<Rightarrow> js_object" where
  "js_set obj k v =
     (if k = ''__proto__'' then obj
      else if k \<in> fst ` set obj then map (\<lambda>(k', v'). if k' = k then (k', v) else (k', v')) obj
      else obj @ [(k, v)])"

text \<open>
  An array index is the canonical decimal text of an integer from 0 to \<open>2^32 - 2\<close>.
  \<^verbatim>\<open>Object.entries\<close> lists the own properties whose keys are array indices first, in
  ascending numeric order, and then the other properties in the order of their creation.
\<close>

definition is_digit :: "char \<Rightarrow> bool" where
  "is_digit c = (48 \<le> (of_char c :: nat) \<and> (of_char c :: nat) \<le> 57)"

definition digits_value :: "string \<Rightarrow> nat" where
  "digits_value k = foldl (\<lambda>n c. 10 * n + ((of_char c :: nat) - 48)) 0 k"

definition is_array_index :: "string \<Rightarrow> bool" where
  "is_array_index k =
     (k \<noteq> [] \<and> list_all is_digit k \<and> (k = ''0'' \<or> hd k \<noteq> CHR ''0'') \<and>
      digits_value k < 2 ^ 32 - 1)"

definition Object_entries :: "js_object \<Rightarrow> (string \<times> jsval) list" where
  "Object_entries obj =
     sort_key (\<lambda>e. digits_value (fst e)) (filter (\<lambda>e. is_array_index (fst e)) obj) @
     filter (\<lambda>e. \<not> is_array_index (fst e)) obj"

subsection \<open>Array.prototype.sort\<close>

text \<open>
  \<^verbatim>\<open>sort\<close> is stable, and a comparator result that is not a number counts as 0. For a
  comparator that is a consistent ordering the result is the stable insertion sort below,
  whichever algorithm the engine runs: \<open>x\<close>, which stood before all of \<open>ys\<close>, stays
  before the first element it does not have to follow.
\<close>

fun sort_insert :: "('a \<Rightarrow> 'a \<Rightarrow> int option) \<Rightarrow> 'a \<Rightarrow> 'a list \<Rightarrow> 'a list" where
  "sort_insert comparefn x [] = [x]"
| "sort_insert comparefn x (y # ys) =
     (if (case comparefn x y of None \<Rightarrow> 0 | Some v \<Rightarrow> v) \<le> 0 then x # y # ys
      else y # sort_insert comparefn x ys)"

definition Array_sort :: "('a \<Rightarrow> 'a \<Rightarrow> int option) \<Rightarrow> 'a list \<Rightarrow> 'a list" where
  "Array_sort comparefn xs = foldr (sort_insert comparefn) xs []"

subsection \<open>The statistics of StatisticsPanel\<close>

text \<open>The comparator \<^verbatim>\<open>(a, b) => b[1] - a[1]\<close>; a string operand makes the difference NaN.\<close>

definition compare_counts :: "string \<times> jsval \<Rightarrow> string \<times> jsval \<Rightarrow> int option" where
  "compare_counts a b =
     (case (snd b, snd a) of
        (Num m, Num n) \<Rightarrow> Some (int m - int n)
      | _ \<Rightarrow> None)"

record stats_vars =
  classCount :: js_object
  totalConfidence :: real
  totalObjects :: nat

text \<open>The body of \<^verbatim>\<open>detectionResults.forEach\<close>.\<close>

definition forEach_body :: "DetectionResult \<Rightarrow> stats_vars \<Rightarrow> stats_vars" where
  "forEach_body result vars =
     \<lparr>classCount = js_set (classCount vars) (className result)
                     (or_zero_plus_one (js_get (classCount vars) (className result))),
      totalConfidence = totalConfidence vars + confidence result,
      totalObjects = totalObjects vars + 1\<rparr>"

record Statistics =
  objectCount :: nat
  classCounts :: "(string \<times> jsval) list"
  avgConfidence :: real

definition stats :: "DetectionResult list \<Rightarrow> Statistics" where
  "stats detectionResults =
     (let vars = fold forEach_body detectionResults
                   \<lparr>classCount = [], totalConfidence = 0, totalObjects = 0\<rparr>;
          avg = (if totalObjects vars > 0
                 then totalConfidence vars / real (totalObjects vars) else 0)
      in \<lparr>objectCount = totalObjects vars,
          classCounts = Array_sort compare_counts (Object_entries (classCount vars)),
          avgConfidence = avg\<rparr>)"

subsection \<open>The order of first encounter, in the specification's words\<close>

text \<open>
  The classes of a detection list in the order in which each is first encountered, how
  often a class occurs, and the class counts listed in the order of first encounter. These
  three follow the specification, not the source; the aggregation is compared with them.
\<close>

fun first_seen :: "string list \<Rightarrow> string list" where
  "first_seen [] = []"
| "first_seen (k # ks) = k # filter (\<lambda>k'. k' \<noteq> k) (first_seen ks)"

definition occurrences :: "string \<Rightarrow> DetectionResult list \<Rightarrow> nat" where
  "occurrences k D = length (filter (\<lambda>d. className d = k) D)"

definition first_encountered_counts :: "DetectionResult list \<Rightarrow> (string \<times> jsval) list" where
  "first_encountered_counts D =
     map (\<lambda>k. (k, Num (occurrences k D))) (first_seen (map className D))"

text \<open>A class name that is the name of a member of \<^verbatim>\<open>Object.prototype\<close>.\<close>

definition inherited_key :: "string \<Rightarrow> bool" where
  "inherited_key k = (map_of Object_prototype k \<noteq> None)"

section \<open>The shared application state (context/AppContext.tsx)\<close>

datatype VideoSource = Webcam | File

text \<open>
  The value an \<^verbatim>\<open>AppProvider\<close> hands to its descendants. The setters of the source are
  the updates of the fields; \<^verbatim>\<open>null\<close> is \<open>None\<close>.
\<close>

record AppContextType =
  videoSource :: "VideoSource option"
  isDetecting :: bool
  selectedModel :: string
  confidenceThreshold :: real
  detectionResults :: "DetectionResult list"
  isRecording :: bool
  uploadedVideo :: "string option"

datatype js_error = Error string | DOMException string

text \<open>
  \<^verbatim>\<open>useContext(AppContext)\<close> yields the value of the nearest provider above the calling
  component, or the default of the context, \<^verbatim>\<open>undefined\<close>, when there is none. The
  providers above the component are listed nearest first. \<^verbatim>\<open>AppContext\<close> is private to
  its module, so \<^verbatim>\<open>AppProvider\<close>, whose value is always an object, is the only provider.
\<close>

definition useContext :: "'v list \<Rightarrow> 'v option" where
  "useContext providers = (case providers of [] \<Rightarrow> None | v # _ \<Rightarrow> Some v)"

definition useAppContext :: "AppContextType list \<Rightarrow> js_error + AppContextType" where
  "useAppContext providers =
     (let context = useContext providers in
      case context of
        None \<Rightarrow> Inl (Error ''useAppContext must be used within an AppProvider'')
      | Some c \<Rightarrow> Inr c)"

section \<open>The detection component (components/ObjectDetection)\<close>

subsection \<open>Browser objects\<close>

text \<open>
  A track counts the calls of its \<^verbatim>\<open>stop()\<close>; it is live while there was none. A stream
  is the list of its tracks. The streams that \<^verbatim>\<open>getUserMedia\<close> has delivered are kept
  in a store and referred to by their position in it, because the video element and the
  recorder share them.
\<close>

record MediaStreamTrack =
  stop_calls :: nat

type_synonym MediaStream = "MediaStreamTrack list"

definition track_stop :: "MediaStreamTrack \<Rightarrow> MediaStreamTrack" where
  "track_stop t = t\<lparr>stop_calls := stop_calls t + 1\<rparr>"

record Blob =
  bytes :: "8 word list"
  blob_type :: string

definition blob_size :: "Blob \<Rightarrow> nat" where
  "blob_size b = length (bytes b)"

text \<open>\<^verbatim>\<open>new Blob(parts, { type })\<close> concatenates the parts.\<close>

definition new_Blob :: "Blob list \<Rightarrow> string \<Rightarrow> Blob" where
  "new_Blob parts t = \<lparr>bytes = concat (map bytes parts), blob_type = t\<rparr>"

datatype RecordingState = inactive | recording | paused

text \<open>
  A \<^verbatim>\<open>MediaRecorder\<close> with the array \<^verbatim>\<open>chunks\<close> that its two handlers close over: the
  array is created once, together with the recorder, when the stream arrives.
  \<open>stop_pending\<close> holds from a call of \<^verbatim>\<open>stop()\<close> until the browser has fired the
  resulting \<^verbatim>\<open>dataavailable\<close> and \<^verbatim>\<open>stop\<close> events. There is one recorder per stream,
  so the stream identifies the recorder.
\<close>

record MediaRecorder =
  stream :: nat
  state :: RecordingState
  stop_pending :: bool
  chunks :: "Blob list"

text \<open>\<^verbatim>\<open>start()\<close> throws unless the recorder is inactive.\<close>

definition MediaRecorder_start :: "MediaRecorder \<Rightarrow> js_error + MediaRecorder" where
  "MediaRecorder_start r =
     (if state r \<noteq> inactive then Inl (DOMException ''InvalidStateError'')
      else Inr (r\<lparr>state := recording\<rparr>))"

text \<open>
  \<^verbatim>\<open>stop()\<close> makes the recorder inactive at once; the data gathered and the \<^verbatim>\<open>stop\<close>
  event follow later.
\<close>

definition MediaRecorder_stop :: "MediaRecorder \<Rightarrow> MediaRecorder" where
  "MediaRecorder_stop r =
     (if state r = inactive then r else r\<lparr>state := inactive, stop_pending := True\<rparr>)"

datatype video_kind = webcam_video | file_video

text \<open>
  The two \<^verbatim>\<open><video>\<close> elements of the component share \<^verbatim>\<open>videoRef\<close>. \<open>readyState\<close> and
  the dimensions are set by the browser.
\<close>

record HTMLVideoElement =
  kind :: video_kind
  srcObject :: "nat option"
  readyState :: nat
  videoWidth :: nat
  videoHeight :: nat

definition new_video :: "video_kind \<Rightarrow> HTMLVideoElement" where
  "new_video k = \<lparr>kind = k, srcObject = None, readyState = 0, videoWidth = 0, videoHeight = 0\<rparr>"

text \<open>
  What the canvas shows: whether the video frame has been drawn and, for each detection
  drawn, its class, the percentage of its label and its rectangle in canvas pixels. The
  stroke, the label background and the label text of one detection are one entry; colours and
  fonts are left out. \<open>context_2d\<close> says whether \<^verbatim>\<open>getContext('2d')\<close> yields a context
  (it yields \<^verbatim>\<open>null\<close> for a canvas that is bound to a context of another kind).
\<close>

record overlay_box =
  box_class :: string
  box_percent :: int
  box_rect :: "real \<times> real \<times> real \<times> real"

record HTMLCanvasElement =
  width :: nat
  height :: nat
  context_2d :: bool
  frame_drawn :: bool
  boxes :: "overlay_box list"

definition Math_round :: "real \<Rightarrow> int" where
  "Math_round x = \<lfloor>x + 0.5\<rfloor>"

subsection \<open>State\<close>

text \<open>
  The context value, the state and the refs of \<^verbatim>\<open>ObjectDetection\<close>, and what the
  component reaches in the browser: the streams delivered, the number of calls of
  \<^verbatim>\<open>getUserMedia\<close> not yet answered, whether an animation frame is requested, the random
  source, the alerts shown, the console, the exceptions that left a callback uncaught, and
  the files downloaded.
\<close>

record App = AppContextType +
  showSettings :: bool
  mediaRecorder :: "MediaRecorder option"
  recordedChunks :: "Blob list"
  hasVideo :: bool
  videoRef :: "HTMLVideoElement option"
  canvasRef :: "HTMLCanvasElement option"
  media_streams :: "MediaStream list"
  getUserMedia_pending :: nat
  animationFrame :: bool
  random :: random_source
  alerts :: "string list"
  console :: "string list"
  uncaught :: "js_error list"
  downloads :: "(string \<times> Blob) list"

text \<open>
  The state once \<^verbatim>\<open><App />\<close> is mounted: the initial values of \<^verbatim>\<open>useState\<close>, the
  canvas attached to its ref, no video element rendered.
\<close>

definition initial :: "random_source \<Rightarrow> App" where
  "initial rnd =
     \<lparr>videoSource = None, isDetecting = False, selectedModel = ''yolov8n'',
      confidenceThreshold = 0.5, detectionResults = [], isRecording = False,
      uploadedVideo = None,
      showSettings = False, mediaRecorder = None, recordedChunks = [], hasVideo = False,
      videoRef = None,
      canvasRef = Some \<lparr>width = 300, height = 150, context_2d = True, frame_drawn = False,
                         boxes = []\<rparr>,
      media_streams = [], getUserMedia_pending = 0, animationFrame = False, random = rnd,
      alerts = [], console = [], uncaught = [], downloads = []\<rparr>"

subsection \<open>The detection loop\<close>

text \<open>The three drawing calls for one detection on a canvas of the given size.\<close>

definition draw_box :: "nat \<Rightarrow> nat \<Rightarrow> DetectionResult \<Rightarrow> overlay_box" where
  "draw_box canvas_width canvas_height obj =
     (let (x, y, w, h) = bbox obj;
          scaledX = x * real canvas_width;
          scaledY = y * real canvas_height;
          scaledWidth = w * real canvas_width;
          scaledHeight = h * real canvas_height
      in \<lparr>box_class = className obj, box_percent = Math_round (confidence obj * 100),
          box_rect = (scaledX, scaledY, scaledWidth, scaledHeight)\<rparr>)"

text \<open>
  One call of \<^verbatim>\<open>detect\<close>. \<open>snap\<close> holds the values of \<^verbatim>\<open>isDetecting\<close>, \<^verbatim>\<open>hasVideo\<close>
  and \<^verbatim>\<open>confidenceThreshold\<close> that the function closes over, those of the render whose
  effect created it. The function returns without requesting a frame when detection is
  off, there is no video, a ref is empty or the canvas gives no context. Assigning
  \<^verbatim>\<open>canvas.width\<close> clears the canvas. When the video is ready the frame is drawn,
  \<open>mockDetection\<close> is called, its result becomes the detection list and is drawn box by
  box. Then the next animation frame is requested.
\<close>

definition detect :: "App \<Rightarrow> App \<Rightarrow> App" where
  "detect snap s =
     (case (videoRef s, canvasRef s) of
        (Some video, Some canvas) \<Rightarrow>
          if \<not> isDetecting snap \<or> \<not> hasVideo snap then s
          else if \<not> context_2d canvas then s
          else
            let w = (if videoWidth video \<noteq> 0 then videoWidth video else 640);
                h = (if videoHeight video \<noteq> 0 then videoHeight video else 480);
                cleared = canvas\<lparr>width := w, height := h, frame_drawn := False, boxes := []\<rparr>
            in if readyState video = 4 then
                 (let (results, rnd) = mockDetection (confidenceThreshold snap) (random s)
                  in s\<lparr>canvasRef := Some (cleared\<lparr>frame_drawn := True,
                                                   boxes := map (draw_box w h) results\<rparr>),
                       detectionResults := results,
                       random := rnd,
                       animationFrame := True\<rparr>)
               else s\<lparr>canvasRef := Some cleared, animationFrame := True\<rparr>
      | _ \<Rightarrow> s)"

subsection \<open>The effects\<close>

text \<open>
  The cleanup of the webcam effect. It reads \<^verbatim>\<open>videoRef.current\<close> when it runs, and
  stops every track of the stream it finds there. (\<open>srcObject\<close> is always the position of
  a stream in the store; \<open>xs[i := v]\<close> leaves \<open>xs\<close> as it is for any other \<open>i\<close>.)
\<close>

definition webcam_cleanup :: "App \<Rightarrow> App" where
  "webcam_cleanup s =
     (case videoRef s of
        None \<Rightarrow> s
      | Some video \<Rightarrow>
          (case srcObject video of
             None \<Rightarrow> s
           | Some i \<Rightarrow>
               s\<lparr>media_streams := (media_streams s)[i := map track_stop (media_streams s ! i)],
                 videoRef := Some (video\<lparr>srcObject := None\<rparr>),
                 hasVideo := False\<rparr>))"

text \<open>A string or \<^verbatim>\<open>null\<close> used as a condition.\<close>

definition truthy :: "string option \<Rightarrow> bool" where
  "truthy u = (case u of None \<Rightarrow> False | Some t \<Rightarrow> t \<noteq> [])"

text \<open>The body of the webcam effect, for the render \<open>snap\<close>.\<close>

definition webcam_effect :: "App \<Rightarrow> App \<Rightarrow> App" where
  "webcam_effect snap s =
     (if videoSource snap = Some Webcam
      then s\<lparr>getUserMedia_pending := getUserMedia_pending s + 1\<rparr>
      else if videoSource snap = Some File \<and> truthy (uploadedVideo snap)
      then s\<lparr>hasVideo := True\<rparr>
      else s\<lparr>hasVideo := False\<rparr>)"

text \<open>
  The recording effect. \<^verbatim>\<open>setRecordedChunks([])\<close> empties the state of the component;
  the array \<open>chunks\<close> of the recorder is not touched.
\<close>

definition recording_effect :: "App \<Rightarrow> App \<Rightarrow> App" where
  "recording_effect snap s =
     (case mediaRecorder s of
        None \<Rightarrow> s
      | Some r \<Rightarrow>
          if isRecording snap then
            (case MediaRecorder_start r of
               Inl e \<Rightarrow> s\<lparr>recordedChunks := [], uncaught := uncaught s @ [e]\<rparr>
             | Inr r' \<Rightarrow> s\<lparr>recordedChunks := [], mediaRecorder := Some r'\<rparr>)
          else if state r = recording then s\<lparr>mediaRecorder := Some (MediaRecorder_stop r)\<rparr>
          else s)"

subsection \<open>Rendering\<close>

text \<open>
  The video element that the JSX renders, if any, and the commit of a render: React
  detaches the ref of an element it removes and attaches the ref of an element it inserts
  before it runs the cleanups and the bodies of the effects of that render. An element that
  stays rendered is kept as it is.
\<close>

definition rendered_video :: "App \<Rightarrow> video_kind option" where
  "rendered_video s =
     (if videoSource s = Some Webcam then Some webcam_video
      else if videoSource s = Some File \<and> truthy (uploadedVideo s) then Some file_video
      else None)"

definition commit_refs :: "App \<Rightarrow> App" where
  "commit_refs s =
     (case rendered_video s of
        None \<Rightarrow> s\<lparr>videoRef := None\<rparr>
      | Some k \<Rightarrow>
          (case videoRef s of
             None \<Rightarrow> s\<lparr>videoRef := Some (new_video k)\<rparr>
           | Some video \<Rightarrow> if kind video = k then s else s\<lparr>videoRef := Some (new_video k)\<rparr>))"

text \<open>
  One render after the state \<open>prev\<close> of the previous render has become \<open>s\<close>: the commit,
  then the cleanups of the effects whose dependencies changed (the webcam effect has a
  cleanup only when its last run took the webcam branch; the cleanup of the detection effect
  cancels the animation frame), then their bodies, in the order of the source.
\<close>

definition render :: "App \<Rightarrow> App \<Rightarrow> App" where
  "render prev s =
     (let webcam_deps = ((videoSource prev, uploadedVideo prev) \<noteq> (videoSource s, uploadedVideo s));
          recording_deps = ((isRecording prev, map_option stream (mediaRecorder prev))
                            \<noteq> (isRecording s, map_option stream (mediaRecorder s)));
          detection_deps = ((isDetecting prev, hasVideo prev, confidenceThreshold prev)
                            \<noteq> (isDetecting s, hasVideo s, confidenceThreshold s));
          s1 = commit_refs s;
          s2 = (if webcam_deps \<and> videoSource prev = Some Webcam then webcam_cleanup s1 else s1);
          s3 = (if detection_deps then s2\<lparr>animationFrame := False\<rparr> else s2);
          s4 = (if webcam_deps then webcam_effect s s3 else s3);
          s5 = (if recording_deps then recording_effect s s4 else s4);
          s6 = (if detection_deps then detect s s5 else s5)
      in s6)"

text \<open>
  A state change made by a handler: the render it causes, and the render caused by the
  state that the effects of the first one set (\<^verbatim>\<open>hasVideo\<close>). The effects of the second
  render set nothing that an effect depends on.
\<close>

definition rerender :: "App \<Rightarrow> App \<Rightarrow> App" where
  "rerender prev s = (let s1 = render prev s in render s s1)"

subsection \<open>Handlers\<close>

text \<open>The two source buttons of \<^verbatim>\<open>Layout\<close>.\<close>

definition click_webcam :: "App \<Rightarrow> App" where
  "click_webcam s =
     (let s1 = s\<lparr>videoSource := Some Webcam\<rparr>;
          s2 = (if isDetecting s then s1\<lparr>isDetecting := False\<rparr> else s1)
      in rerender s s2)"

definition click_upload :: "App \<Rightarrow> App" where
  "click_upload s =
     (let s1 = s\<lparr>videoSource := Some File\<rparr>;
          s2 = (if isDetecting s then s1\<lparr>isDetecting := False\<rparr> else s1)
      in rerender s s2)"

text \<open>
  \<^verbatim>\<open>handleFileUpload\<close>, given the object URL of the chosen file if one was chosen. The
  file input is rendered only while there is no video and the source is the file.
\<close>

definition handleFileUpload :: "string option \<Rightarrow> App \<Rightarrow> App" where
  "handleFileUpload chosen s =
     (case chosen of
        None \<Rightarrow> s
      | Some url \<Rightarrow>
          if \<not> hasVideo s \<and> videoSource s = Some File
          then rerender s (s\<lparr>uploadedVideo := Some url\<rparr>) else s)"

text \<open>
  The buttons of the control bar, which is rendered only while \<^verbatim>\<open>hasVideo\<close> holds; the
  record button needs the webcam source and running detection in addition.
\<close>

definition click_detection :: "App \<Rightarrow> App" where
  "click_detection s =
     (if hasVideo s then rerender s (s\<lparr>isDetecting := \<not> isDetecting s\<rparr>) else s)"

definition click_record :: "App \<Rightarrow> App" where
  "click_record s =
     (if hasVideo s \<and> videoSource s = Some Webcam \<and> isDetecting s
      then rerender s (s\<lparr>isRecording := \<not> isRecording s\<rparr>) else s)"

text \<open>
  \<^verbatim>\<open>downloadRecording\<close>. It returns \<^verbatim>\<open>undefined\<close> on both of its paths and throws on
  neither, so it is a function on the state alone. With no recorded chunk it returns at
  once; otherwise the chunks go into one blob, which is downloaded under the fixed file
  name. The download button is rendered only while there is a recorded chunk.
\<close>

definition downloadRecording :: "App \<Rightarrow> App" where
  "downloadRecording s =
     (if length (recordedChunks s) = 0 then s
      else
        let blob = new_Blob (recordedChunks s) ''video/webm''
        in s\<lparr>downloads := downloads s @ [(''detection-recording.webm'', blob)]\<rparr>)"

definition click_download :: "App \<Rightarrow> App" where
  "click_download s =
     (if hasVideo s \<and> length (recordedChunks s) > 0 then downloadRecording s else s)"

text \<open>The answers to \<^verbatim>\<open>getUserMedia\<close>: a stream with some tracks, or a rejection.\<close>

definition getUserMedia_then :: "nat \<Rightarrow> App \<Rightarrow> App" where
  "getUserMedia_then n_tracks s =
     (if getUserMedia_pending s = 0 then s
      else
        let i = length (media_streams s);
            s1 = s\<lparr>getUserMedia_pending := getUserMedia_pending s - 1,
                   media_streams := media_streams s @ [replicate n_tracks \<lparr>stop_calls = 0\<rparr>]\<rparr>
        in case videoRef s1 of
             None \<Rightarrow> s1
           | Some video \<Rightarrow>
               rerender s1
                 (s1\<lparr>videoRef := Some (video\<lparr>srcObject := Some i\<rparr>),
                     hasVideo := True,
                     mediaRecorder := Some \<lparr>stream = i, state = inactive,
                                             stop_pending = False, chunks = []\<rparr>\<rparr>))"

definition getUserMedia_catch :: "App \<Rightarrow> App" where
  "getUserMedia_catch s =
     (if getUserMedia_pending s = 0 then s
      else s\<lparr>getUserMedia_pending := getUserMedia_pending s - 1,
             console := console s @ [''Error accessing webcam:''],
             alerts := alerts s @
               [''Unable to access webcam. Please make sure you have given permission.'']\<rparr>)"

text \<open>The two handlers of the recorder.\<close>

definition ondataavailable :: "Blob \<Rightarrow> MediaRecorder \<Rightarrow> MediaRecorder" where
  "ondataavailable data r = (if blob_size data > 0 then r\<lparr>chunks := chunks r @ [data]\<rparr> else r)"

definition onstop :: "MediaRecorder \<Rightarrow> App \<Rightarrow> App" where
  "onstop r s = rerender s (s\<lparr>recordedChunks := chunks r\<rparr>)"

text \<open>
  What the browser does after \<^verbatim>\<open>stop()\<close>: it fires \<^verbatim>\<open>dataavailable\<close> with the data
  gathered since \<^verbatim>\<open>start()\<close> and then \<^verbatim>\<open>stop\<close>.
\<close>

definition recorder_stopped :: "Blob \<Rightarrow> App \<Rightarrow> App" where
  "recorder_stopped data s =
     (case mediaRecorder s of
        None \<Rightarrow> s
      | Some r \<Rightarrow>
          if stop_pending r then
            let r' = (ondataavailable data r)\<lparr>stop_pending := False\<rparr>
            in onstop r' (s\<lparr>mediaRecorder := Some r'\<rparr>)
          else s)"

text \<open>The browser reports the state and the size of the video that the ref points to.\<close>

definition video_progress :: "nat \<Rightarrow> nat \<Rightarrow> nat \<Rightarrow> App \<Rightarrow> App" where
  "video_progress rs w h s =
     (case videoRef s of
        None \<Rightarrow> s
      | Some video \<Rightarrow> s\<lparr>videoRef := Some (video\<lparr>readyState := rs, videoWidth := w, videoHeight := h\<rparr>)\<rparr>)"

text \<open>
  A requested animation frame fires: \<^verbatim>\<open>detect\<close> runs again, and the new detection
  results cause a render.
\<close>

definition animation_frame :: "App \<Rightarrow> App" where
  "animation_frame s =
     (if animationFrame s then rerender s (detect s (s\<lparr>animationFrame := False\<rparr>)) else s)"

subsection \<open>Runs\<close>

text \<open>
  The events of the user and of the browser. The settings panel, which changes the model
  and the threshold, is not among them.
\<close>

datatype event =
    ClickWebcam | ClickUpload | ChooseFile "string option"
  | ClickDetection | ClickRecord | ClickDownload
  | CameraGranted nat | CameraDenied
  | RecorderStopped Blob | VideoProgress nat nat nat | AnimationFrame

fun step :: "event \<Rightarrow> App \<Rightarrow> App" where
  "step ClickWebcam s = click_webcam s"
| "step ClickUpload s = click_upload s"
| "step (ChooseFile chosen) s = handleFileUpload chosen s"
| "step ClickDetection s = click_detection s"
| "step ClickRecord s = click_record s"
| "step ClickDownload s = click_download s"
| "step (CameraGranted n) s = getUserMedia_then n s"
| "step CameraDenied s = getUserMedia_catch s"
| "step (RecorderStopped data) s = recorder_stopped data s"
| "step (VideoProgress rs w h) s = video_progress rs w h s"
| "step AnimationFrame s = animation_frame s"

definition run :: "event list \<Rightarrow> App \<Rightarrow> App" where
  "run events s = fold step events s"

subsection \<open>Two invariants of the runs\<close>

text \<open>
  No track of any stream has received a call of \<^verbatim>\<open>stop()\<close>; and \<^verbatim>\<open>videoRef\<close> points
  to the video element that the current state renders.
\<close>

definition untouched :: "App \<Rightarrow> bool" where
  "untouched s = list_all (list_all (\<lambda>t. stop_calls t = 0)) (media_streams s)"

definition ref_matches :: "App \<Rightarrow> bool" where
  "ref_matches s = (map_option kind (videoRef s) = rendered_video s)"

section \<open>Properties of the mock detection adapter\<close>

lemma mockDetection_loop_confidence:
  "(\<forall>d \<in> set results. t \<le> confidence d) \<Longrightarrow>
   (\<forall>d \<in> set (fst (mockDetection_loop t n s results)). t \<le> confidence d)"
proof (induction n arbitrary: s results)
  case 0
  then show ?case by simp
next
  case (Suc n)
  show ?case
  proof (cases "t \<le> shd s")
    case True
    let ?d = "\<lparr>className = array_get DETECTION_CLASSES
                  (Math_floor (shd (stl s) * real (length DETECTION_CLASSES))),
              confidence = shd s,
              bbox = (shd (stl (stl s)) * 0.8, shd (stl (stl (stl s))) * 0.8,
                      shd (stl (stl (stl (stl s)))) * 0.2 + 0.1,
                      shd (stl (stl (stl (stl (stl s))))) * 0.2 + 0.1)\<rparr>"
    have step: "mockDetection_loop t (Suc n) s results =
                mockDetection_loop t n (stl (stl (stl (stl (stl (stl s)))))) (results @ [?d])"
      using True by (simp add: Math_random_def Let_def)
    have "\<forall>d \<in> set (results @ [?d]). t \<le> confidence d"
      using Suc.prems True by simp
    then show ?thesis
      unfolding step by (rule Suc.IH)
  next
    case False
    have step: "mockDetection_loop t (Suc n) s results = mockDetection_loop t n (stl s) results"
      using False by (simp add: Math_random_def)
    show ?thesis
      unfolding step using Suc.prems by (rule Suc.IH)
  qed
qed

text \<open>
  C1. Whatever the threshold and whatever numbers the random source delivers, every
  detection that \<open>mockDetection\<close> returns has a confidence of at least the threshold. In
  particular, at threshold 0.9, when the source makes the adapter draw three candidates
  with the confidences 0.95, 0.85 and 0.91 (the first draw \<open>r\<close> gives the count 3; an
  accepted candidate is followed by its five draws for class and box), the returned list
  has length 2.
\<close>

theorem mockDetection_respects_threshold:
  "(\<forall>d \<in> set (fst (mockDetection t s)). t \<le> confidence d) \<and>
   (Math_floor (r * 10) = 3 \<longrightarrow>
      length (fst (mockDetection 0.9
        (r ## 0.95 ## c1 ## x1 ## y1 ## w1 ## h1 ## 0.85 ## 0.91 ## c3 ## x3 ## y3 ## w3 ## h3 ## rest)))
      = 2)"
proof
  show "\<forall>d \<in> set (fst (mockDetection t s)). t \<le> confidence d"
    unfolding mockDetection_def Math_random_def Let_def split_def
    by (rule mockDetection_loop_confidence) simp
next
  show "Math_floor (r * 10) = 3 \<longrightarrow>
      length (fst (mockDetection 0.9
        (r ## 0.95 ## c1 ## x1 ## y1 ## w1 ## h1 ## 0.85 ## 0.91 ## c3 ## x3 ## y3 ## w3 ## h3 ## rest)))
      = 2"
    by (simp add: mockDetection_def Math_random_def numeral_3_eq_3)
qed

theorem mockDetection_respects_threshold_witness:
  "Math_floor (0.35 * 10) = 3 \<and>
   map confidence (fst (mockDetection 0.9
     (0.35 ## 0.95 ## 0.1 ## 0.5 ## 0.5 ## 0.5 ## 0.5 ## 0.85 ## 0.91 ## 0.2 ## 0.25 ## 0.25 ## 0 ## 0 ## sconst 0)))
     = [0.95, 0.91] \<and>
   list_all (\<lambda>d. 0.9 \<le> confidence d) (fst (mockDetection 0.9
     (0.35 ## 0.95 ## 0.1 ## 0.5 ## 0.5 ## 0.5 ## 0.5 ## 0.85 ## 0.91 ## 0.2 ## 0.25 ## 0.25 ## 0 ## 0 ## sconst 0))) \<and>
   length (fst (mockDetection 0.9
     (0.35 ## 0.95 ## 0.1 ## 0.5 ## 0.5 ## 0.5 ## 0.5 ## 0.85 ## 0.91 ## 0.2 ## 0.25 ## 0.25 ## 0 ## 0 ## sconst 0)))
     = 2"
proof -
  have fl: "Math_floor (0.35 * 10) = 3"
    by (simp add: Math_floor_def)
  show ?thesis
    using fl
      mockDetection_respects_threshold [of "0.9"
        "0.35 ## 0.95 ## 0.1 ## 0.5 ## 0.5 ## 0.5 ## 0.5 ## 0.85 ## 0.91 ## 0.2 ## 0.25 ## 0.25 ## 0 ## 0 ## sconst 0"
        "0.35" "0.1" "0.5" "0.5" "0.5" "0.5" "0.2" "0.25" "0.25" "0" "0" "sconst 0"]
    by (simp add: mockDetection_def Math_random_def numeral_3_eq_3 list_all_iff)
qed

section \<open>Properties of the statistics\<close>

lemma fold_forEach_totalObjects:
  "totalObjects (fold forEach_body D vars) = totalObjects vars + length D"
  by (induction D arbitrary: vars) (simp_all add: forEach_body_def)

lemma fold_forEach_totalConfidence:
  "totalConfidence (fold forEach_body D vars) = totalConfidence vars + sum_list (map confidence D)"
  by (induction D arbitrary: vars) (simp_all add: forEach_body_def)

lemma first_seen_set: "set (first_seen ks) = set ks"
  by (induction ks) auto

lemma first_seen_snoc:
  "first_seen (ks @ [k]) = (if k \<in> set ks then first_seen ks else first_seen ks @ [k])"
proof (induction ks)
  case Nil
  show ?case by simp
next
  case (Cons a ks)
  have notin: "a \<notin> set (filter (\<lambda>k'. k' \<noteq> a) (first_seen ks))" by simp
  show ?case
  proof (cases "k = a")
    case True
    have "filter (\<lambda>k'. k' \<noteq> a) (first_seen (ks @ [a])) = filter (\<lambda>k'. k' \<noteq> a) (first_seen ks)"
      using Cons.IH True by (cases "a \<in> set ks") simp_all
    then show ?thesis using True by simp
  next
    case False
    then show ?thesis using Cons.IH by (cases "k \<in> set ks") simp_all
  qed
qed

lemma occurrences_snoc:
  "occurrences k' (D @ [d]) = occurrences k' D + (if className d = k' then 1 else 0)"
  by (simp add: occurrences_def)

lemma occurrences_zero: "k \<notin> className ` set D \<Longrightarrow> occurrences k D = 0"
  by (auto simp: occurrences_def filter_empty_conv)

lemma map_of_first_encountered:
  "map_of (first_encountered_counts D) k =
     (if k \<in> className ` set D then Some (Num (occurrences k D)) else None)"
  unfolding first_encountered_counts_def
  by (simp add: map_of_map_restrict restrict_map_def first_seen_set)

lemma fst_set_first_encountered: "fst ` set (first_encountered_counts D) = className ` set D"
  by (auto simp: first_encountered_counts_def first_seen_set image_iff)

lemma inherited_proto: "inherited_key ''__proto__''"
  by (simp add: inherited_key_def Object_prototype_def)

lemma classCount_step:
  assumes "\<not> inherited_key (className d)"
  shows "js_set (first_encountered_counts D) (className d)
           (or_zero_plus_one (js_get (first_encountered_counts D) (className d)))
         = first_encountered_counts (D @ [d])"
proof (cases "className d \<in> className ` set D")
  case True
  have ne: "className d \<noteq> ''__proto__''" using assms inherited_proto by auto
  have mem: "className d \<in> fst ` set (first_encountered_counts D)"
    using True by (simp only: fst_set_first_encountered)
  have g: "js_get (first_encountered_counts D) (className d) = Own (Num (occurrences (className d) D))"
    using True by (simp add: js_get_def map_of_first_encountered)
  have "js_set (first_encountered_counts D) (className d)
           (or_zero_plus_one (js_get (first_encountered_counts D) (className d)))
        = map (\<lambda>(k', v'). if k' = className d then (k', Num (Suc (occurrences (className d) D))) else (k', v'))
            (first_encountered_counts D)"
    using mem ne by (simp add: js_set_def g)
  also have "\<dots> = first_encountered_counts (D @ [d])"
    using True by (auto simp: first_encountered_counts_def first_seen_snoc occurrences_snoc)
  finally show ?thesis .
next
  case False
  have ne: "className d \<noteq> ''__proto__''" using assms inherited_proto by auto
  have mem: "className d \<notin> fst ` set (first_encountered_counts D)"
    using False by (simp only: fst_set_first_encountered not_False_eq_True)
  have g: "js_get (first_encountered_counts D) (className d) = Undefined"
    using False assms by (simp add: js_get_def map_of_first_encountered inherited_key_def)
  have "js_set (first_encountered_counts D) (className d)
           (or_zero_plus_one (js_get (first_encountered_counts D) (className d)))
        = first_encountered_counts D @ [(className d, Num 1)]"
    using mem ne by (simp add: js_set_def g)
  also have "\<dots> = first_encountered_counts (D @ [d])"
    using False
    by (auto simp: first_encountered_counts_def first_seen_snoc occurrences_snoc occurrences_zero first_seen_set)
  finally show ?thesis .
qed

lemma classCount_fold:
  assumes "\<forall>d \<in> set D. \<not> inherited_key (className d)"
  shows "classCount (fold forEach_body D \<lparr>classCount = [], totalConfidence = 0, totalObjects = 0\<rparr>)
         = first_encountered_counts D"
  using assms
proof (induction D rule: rev_induct)
  case Nil
  show ?case by (simp add: first_encountered_counts_def)
next
  case (snoc d D)
  then show ?case
    by (simp add: forEach_body_def classCount_step)
qed


lemma compare_counts_Num:
  "compare_counts (k, Num n) (k', Num m) = Some (int m - int n)"
  by (simp add: compare_counts_def)

lemma set_sort_insert: "set (sort_insert f x ys) = insert x (set ys)"
  by (induction ys) auto

lemma set_Array_sort: "set (Array_sort f xs) = set xs"
  unfolding Array_sort_def by (induction xs) (simp_all add: set_sort_insert)

lemma sum_sort_insert:
  "sum_list (map g (sort_insert f x ys)) = g x + sum_list (map g ys)"
  for g :: "'a \<Rightarrow> nat"
  by (induction ys) auto

lemma sum_Array_sort:
  "sum_list (map g (Array_sort f xs)) = sum_list (map g xs)"
  for g :: "'a \<Rightarrow> nat"
  unfolding Array_sort_def by (induction xs) (simp_all add: sum_sort_insert)

lemma sorted_sort_insert:
  assumes "is_Num (snd x)" "list_all (\<lambda>e. is_Num (snd e)) ys"
    and "sorted_wrt (\<lambda>a b. the_count (snd a) \<ge> the_count (snd b)) ys"
  shows "sorted_wrt (\<lambda>a b. the_count (snd a) \<ge> the_count (snd b)) (sort_insert compare_counts x ys)"
  using assms
proof (induction ys)
  case Nil
  show ?case by simp
next
  case (Cons y ys)
  obtain k n where x: "x = (k, Num n)" using Cons.prems(1) by (cases x; cases "snd x") auto
  obtain k' m where y: "y = (k', Num m)" using Cons.prems(2) by (cases y; cases "snd y") auto
  show ?case
  proof (cases "m \<le> n")
    case True
    then show ?thesis using Cons.prems x y by (auto simp: compare_counts_Num)
  next
    case False
    have "sorted_wrt (\<lambda>a b. the_count (snd a) \<ge> the_count (snd b)) (sort_insert compare_counts x ys)"
      using Cons by simp
    then show ?thesis using False Cons.prems x y
      by (auto simp: compare_counts_Num set_sort_insert)
  qed
qed

lemma sorted_Array_sort:
  "list_all (\<lambda>e. is_Num (snd e)) es \<Longrightarrow>
   sorted_wrt (\<lambda>a b. the_count (snd a) \<ge> the_count (snd b)) (Array_sort compare_counts es)"
proof (induction es)
  case Nil
  show ?case by (simp add: Array_sort_def)
next
  case (Cons e es)
  have "list_all (\<lambda>e. is_Num (snd e)) (Array_sort compare_counts es)"
    using Cons.prems by (simp add: list_all_iff set_Array_sort)
  then have "sorted_wrt (\<lambda>a b. the_count (snd a) \<ge> the_count (snd b))
          (sort_insert compare_counts e (Array_sort compare_counts es))"
    using Cons by (intro sorted_sort_insert) simp_all
  then show ?case by (simp add: Array_sort_def)
qed

lemma filter_sort_insert:
  assumes "is_Num (snd x)" "list_all (\<lambda>e. is_Num (snd e)) ys"
  shows "filter (\<lambda>e. snd e = c) (sort_insert compare_counts x ys)
         = filter (\<lambda>e. snd e = c) (x # ys)"
  using assms
proof (induction ys)
  case Nil
  show ?case by simp
next
  case (Cons y ys)
  obtain k n where x: "x = (k, Num n)" using Cons.prems(1) by (cases x; cases "snd x") auto
  obtain k' m where y: "y = (k', Num m)" using Cons.prems(2) by (cases y; cases "snd y") auto
  show ?case
  proof (cases "m \<le> n")
    case True
    then show ?thesis using x y by (simp add: compare_counts_Num)
  next
    case False
    have "filter (\<lambda>e. snd e = c) (sort_insert compare_counts x ys) = filter (\<lambda>e. snd e = c) (x # ys)"
      using Cons by simp
    then show ?thesis using False x y by (auto simp: compare_counts_Num)
  qed
qed

lemma filter_Array_sort:
  "list_all (\<lambda>e. is_Num (snd e)) es \<Longrightarrow>
   filter (\<lambda>e. snd e = c) (Array_sort compare_counts es) = filter (\<lambda>e. snd e = c) es"
proof (induction es)
  case Nil
  show ?case by (simp add: Array_sort_def)
next
  case (Cons e es)
  have n: "list_all (\<lambda>e. is_Num (snd e)) (Array_sort compare_counts es)"
    using Cons.prems by (simp add: list_all_iff set_Array_sort)
  have "filter (\<lambda>e. snd e = c) (Array_sort compare_counts (e # es))
        = filter (\<lambda>e. snd e = c) (e # Array_sort compare_counts es)"
    using Cons.prems n by (simp add: Array_sort_def filter_sort_insert)
  then show ?case using Cons by simp
qed

lemma set_Object_entries: "set (Object_entries obj) = set obj"
  by (auto simp: Object_entries_def)

lemma Object_entries_plain:
  "\<forall>e \<in> set obj. \<not> is_array_index (fst e) \<Longrightarrow> Object_entries obj = obj"
  by (simp add: Object_entries_def)

lemma sum_insort_key:
  "sum_list (map g (insort_key f x xs)) = g x + sum_list (map g xs)"
  for g :: "'a \<Rightarrow> nat" and f :: "'a \<Rightarrow> nat"
  by (induction xs) auto

lemma sum_sort_key:
  "sum_list (map g (sort_key f xs)) = sum_list (map g xs)"
  for g :: "'a \<Rightarrow> nat" and f :: "'a \<Rightarrow> nat"
  by (induction xs) (simp_all add: sum_insort_key)

lemma sum_filter_split:
  "sum_list (map g (filter P xs)) + sum_list (map g (filter (\<lambda>x. \<not> P x) xs)) = sum_list (map g xs)"
  for g :: "'a \<Rightarrow> nat"
  by (induction xs) auto

lemma sum_Object_entries:
  "sum_list (map g (Object_entries obj)) = sum_list (map g obj)"
  for g :: "string \<times> jsval \<Rightarrow> nat"
  using sum_filter_split [of g "\<lambda>e. is_array_index (fst e)" obj]
  by (simp add: Object_entries_def sum_sort_key)

lemma numeric_first_encountered: "list_all (\<lambda>e. is_Num (snd e)) (first_encountered_counts D)"
  by (simp add: first_encountered_counts_def list_all_iff)

lemma distinct_first_seen: "distinct (first_seen ks)"
  by (induction ks) auto

lemma occurrences_count_list: "occurrences k D = count_list (map className D) k"
  by (induction D) (auto simp: occurrences_def)

lemma sum_first_encountered:
  "sum_list (map (\<lambda>e. the_count (snd e)) (first_encountered_counts D)) = length D"
proof -
  let ?ks = "map className D"
  have "sum_list (map (\<lambda>e. the_count (snd e)) (first_encountered_counts D))
        = sum_list (map (count_list ?ks) (first_seen ?ks))"
    by (simp add: first_encountered_counts_def comp_def occurrences_count_list)
  also have "\<dots> = sum (count_list ?ks) (set (first_seen ?ks))"
    by (rule sum_list_distinct_conv_sum_set) (rule distinct_first_seen)
  also have "\<dots> = sum (count_list ?ks) (set ?ks)"
    by (simp only: first_seen_set)
  also have "\<dots> = length ?ks"
    by (rule sum_count_set) simp_all
  finally show ?thesis by simp
qed

lemma stats_classCounts_ordinary:
  assumes "\<forall>d \<in> set D. \<not> inherited_key (className d)"
  shows "classCounts (stats D) = Array_sort compare_counts (Object_entries (first_encountered_counts D))"
  using classCount_fold [OF assms] by (simp add: stats_def Let_def)

lemma stats_objectCount_length: "objectCount (stats D) = length D"
  by (simp add: stats_def Let_def fold_forEach_totalObjects)

text \<open>
  C2. The aggregation counts every detection in \<open>objectCount\<close>, but a detection whose
  class name is \<^verbatim>\<open>__proto__\<close> gets no entry in \<open>classCounts\<close>: reading
  \<^verbatim>\<open>classCount["__proto__"]\<close> yields the prototype object, adding 1 makes a string of it,
  and the assignment of a string to \<^verbatim>\<open>__proto__\<close> is ignored. For the one-element list
  below \<open>objectCount\<close> is 1 while \<open>classCounts\<close> is empty, so the class counts sum to 0
  and not to the number of detections.
\<close>

theorem stats_proto_class_not_counted:
  "objectCount (stats [det ''__proto__'' 0.5]) = 1 \<and>
   classCounts (stats [det ''__proto__'' 0.5]) = [] \<and>
   sum_list (map (\<lambda>e. the_count (snd e)) (classCounts (stats [det ''__proto__'' 0.5]))) = 0"
  by (simp add: stats_def forEach_body_def js_get_def js_set_def Object_prototype_def
      Object_entries_def Array_sort_def)

text \<open>
  The total is the length of the list for every list, and for every list in which no class
  name is the name of a member of \<^verbatim>\<open>Object.prototype\<close> all class counts are numbers and
  sum to the total.
\<close>

theorem stats_totals:
  "objectCount (stats D) = length D \<and>
   ((\<forall>d \<in> set D. \<not> inherited_key (className d)) \<longrightarrow>
      list_all (\<lambda>e. is_Num (snd e)) (classCounts (stats D)) \<and>
      sum_list (map (\<lambda>e. the_count (snd e)) (classCounts (stats D))) = objectCount (stats D))"
proof (intro conjI impI)
  show "objectCount (stats D) = length D"
    by (rule stats_objectCount_length)
next
  assume ordinary: "\<forall>d \<in> set D. \<not> inherited_key (className d)"
  show "list_all (\<lambda>e. is_Num (snd e)) (classCounts (stats D))"
    using numeric_first_encountered [of D]
    by (simp add: stats_classCounts_ordinary [OF ordinary] list_all_iff set_Array_sort
        set_Object_entries)
  have "sum_list (map (\<lambda>e. the_count (snd e)) (classCounts (stats D))) = length D"
    by (simp add: stats_classCounts_ordinary [OF ordinary] sum_Array_sort sum_Object_entries
        sum_first_encountered)
  then show "sum_list (map (\<lambda>e. the_count (snd e)) (classCounts (stats D))) = objectCount (stats D)"
    by (simp add: stats_objectCount_length)
qed

theorem stats_totals_witness:
  "list_all (\<lambda>d. \<not> inherited_key (className d)) [det ''car'' 0.5, det ''7'' 0.75, det ''car'' 1] \<and>
   objectCount (stats [det ''car'' 0.5, det ''7'' 0.75, det ''car'' 1]) = 3 \<and>
   classCounts (stats [det ''car'' 0.5, det ''7'' 0.75, det ''car'' 1]) = [(''car'', Num 2), (''7'', Num 1)] \<and>
   sum_list (map (\<lambda>e. the_count (snd e))
     (classCounts (stats [det ''car'' 0.5, det ''7'' 0.75, det ''car'' 1]))) = 3"
proof -
  have h: "\<forall>d \<in> set [det ''car'' 0.5, det ''7'' 0.75, det ''car'' 1]. \<not> inherited_key (className d)"
    by (simp add: inherited_key_def Object_prototype_def)
  have c: "classCounts (stats [det ''car'' 0.5, det ''7'' 0.75, det ''car'' 1])
           = [(''car'', Num 2), (''7'', Num 1)]"
    by (simp add: stats_def forEach_body_def js_get_def js_set_def Object_prototype_def
      Object_entries_def Array_sort_def is_array_index_def is_digit_def digits_value_def
      compare_counts_def)
  show ?thesis
    using h c stats_totals [of "[det ''car'' 0.5, det ''7'' 0.75, det ''car'' 1]"]
    by (simp add: list_all_iff)
qed

text \<open>
  C3. The average confidence is 0 for the empty list, and for every other list it is the
  sum of the confidences divided by the number of detections.
\<close>

theorem stats_avgConfidence:
  "avgConfidence (stats []) = 0 \<and>
   (D \<noteq> [] \<longrightarrow> avgConfidence (stats D) = sum_list (map confidence D) / real (length D))"
  by (simp add: stats_def Let_def fold_forEach_totalObjects fold_forEach_totalConfidence)

theorem stats_avgConfidence_witness:
  "[det ''car'' 0.5, det ''dog'' 0.75, det ''car'' 1] \<noteq> [] \<and>
   avgConfidence (stats [det ''car'' 0.5, det ''dog'' 0.75, det ''car'' 1]) = 0.75"
  using stats_avgConfidence [of "[det ''car'' 0.5, det ''dog'' 0.75, det ''car'' 1]"]
  by simp

text \<open>
  C4, as the code has it. For every detection list in which no class name is the name of
  a member of \<^verbatim>\<open>Object.prototype\<close>: every class count is a number; \<open>classCounts\<close> is
  ordered by descending count; and the classes of any one count stand in the order in which
  \<^verbatim>\<open>Object.entries\<close> lists them, which is the class names that are array indices in
  ascending numeric order followed by the other class names in the order of first
  encounter. When no class name is an array index, ties are therefore broken by the order of
  first encounter.
\<close>

theorem classCounts_order:
  assumes "\<forall>d \<in> set D. \<not> inherited_key (className d)"
  shows "list_all (\<lambda>e. is_Num (snd e)) (classCounts (stats D)) \<and>
     sorted_wrt (\<lambda>a b. the_count (snd a) \<ge> the_count (snd b)) (classCounts (stats D)) \<and>
     (\<forall>c. filter (\<lambda>e. snd e = c) (classCounts (stats D))
          = filter (\<lambda>e. snd e = c) (Object_entries (first_encountered_counts D))) \<and>
     ((\<forall>d \<in> set D. \<not> is_array_index (className d)) \<longrightarrow>
      (\<forall>c. filter (\<lambda>e. snd e = c) (classCounts (stats D))
          = filter (\<lambda>e. snd e = c) (first_encountered_counts D)))"
proof -
  let ?es = "Object_entries (first_encountered_counts D)"
  have cc: "classCounts (stats D) = Array_sort compare_counts ?es"
    by (rule stats_classCounts_ordinary [OF assms])
  have num: "list_all (\<lambda>e. is_Num (snd e)) ?es"
    using numeric_first_encountered [of D] by (simp add: list_all_iff set_Object_entries)
  have 1: "list_all (\<lambda>e. is_Num (snd e)) (classCounts (stats D))"
    using num by (simp add: cc list_all_iff set_Array_sort)
  have 2: "sorted_wrt (\<lambda>a b. the_count (snd a) \<ge> the_count (snd b)) (classCounts (stats D))"
    unfolding cc by (rule sorted_Array_sort [OF num])
  have 3: "\<forall>c. filter (\<lambda>e. snd e = c) (classCounts (stats D)) = filter (\<lambda>e. snd e = c) ?es"
    unfolding cc by (simp add: filter_Array_sort [OF num])
  have 4: "(\<forall>d \<in> set D. \<not> is_array_index (className d)) \<longrightarrow>
      (\<forall>c. filter (\<lambda>e. snd e = c) (classCounts (stats D))
          = filter (\<lambda>e. snd e = c) (first_encountered_counts D))"
  proof
    assume plain: "\<forall>d \<in> set D. \<not> is_array_index (className d)"
    have "\<forall>e \<in> set (first_encountered_counts D). \<not> is_array_index (fst e)"
      using plain by (auto simp: first_encountered_counts_def first_seen_set)
    then have "?es = first_encountered_counts D"
      by (rule Object_entries_plain)
    then show "\<forall>c. filter (\<lambda>e. snd e = c) (classCounts (stats D))
          = filter (\<lambda>e. snd e = c) (first_encountered_counts D)"
      using 3 by simp
  qed
  show ?thesis using 1 2 3 4 by blast
qed

text \<open>
  C4 as stated fails: \<^verbatim>\<open>car\<close> is encountered before \<^verbatim>\<open>7\<close> and both occur once, yet
  \<^verbatim>\<open>7\<close> comes first in \<open>classCounts\<close>, because \<^verbatim>\<open>Object.entries\<close> lists a key that is
  an array index before every other key.
\<close>

theorem classCounts_order_counterexample:
  "classCounts (stats [det ''car'' 0.5, det ''7'' 0.5]) = [(''7'', Num 1), (''car'', Num 1)] \<and>
   first_encountered_counts [det ''car'' 0.5, det ''7'' 0.5] = [(''car'', Num 1), (''7'', Num 1)]"
  by (simp add: stats_def forEach_body_def js_get_def js_set_def Object_prototype_def
      Object_entries_def Array_sort_def is_array_index_def is_digit_def digits_value_def
      compare_counts_def first_encountered_counts_def occurrences_def)

theorem classCounts_order_witness:
  "list_all (\<lambda>d. \<not> inherited_key (className d))
     [det ''dog'' 0.5, det ''car'' 0.5, det ''7'' 0.5, det ''car'' 0.5] \<and>
   classCounts (stats [det ''dog'' 0.5, det ''car'' 0.5, det ''7'' 0.5, det ''car'' 0.5])
     = [(''car'', Num 2), (''7'', Num 1), (''dog'', Num 1)] \<and>
   list_all (\<lambda>d. \<not> is_array_index (className d)) [det ''dog'' 0.5, det ''car'' 0.5, det ''cat'' 0.5, det ''car'' 0.5] \<and>
   classCounts (stats [det ''dog'' 0.5, det ''car'' 0.5, det ''cat'' 0.5, det ''car'' 0.5])
     = [(''car'', Num 2), (''dog'', Num 1), (''cat'', Num 1)]"
proof -
  have h: "\<forall>d \<in> set [det ''dog'' 0.5, det ''car'' 0.5, det ''7'' 0.5, det ''car'' 0.5].
             \<not> inherited_key (className d)"
    by (simp add: inherited_key_def Object_prototype_def)
  have h': "\<forall>d \<in> set [det ''dog'' 0.5, det ''car'' 0.5, det ''cat'' 0.5, det ''car'' 0.5].
             \<not> inherited_key (className d)"
    by (simp add: inherited_key_def Object_prototype_def)
  have p: "\<forall>d \<in> set [det ''dog'' 0.5, det ''car'' 0.5, det ''cat'' 0.5, det ''car'' 0.5].
             \<not> is_array_index (className d)"
    by (simp add: is_array_index_def is_digit_def)
  have c1: "classCounts (stats [det ''dog'' 0.5, det ''car'' 0.5, det ''7'' 0.5, det ''car'' 0.5])
     = [(''car'', Num 2), (''7'', Num 1), (''dog'', Num 1)]"
    by (simp add: stats_def forEach_body_def js_get_def js_set_def Object_prototype_def
      Object_entries_def Array_sort_def is_array_index_def is_digit_def digits_value_def
      compare_counts_def)
  have c2: "classCounts (stats [det ''dog'' 0.5, det ''car'' 0.5, det ''cat'' 0.5, det ''car'' 0.5])
     = [(''car'', Num 2), (''dog'', Num 1), (''cat'', Num 1)]"
    by (simp add: stats_def forEach_body_def js_get_def js_set_def Object_prototype_def
      Object_entries_def Array_sort_def is_array_index_def is_digit_def digits_value_def
      compare_counts_def)
  show ?thesis
    using h p c1 c2 classCounts_order [OF h] classCounts_order [OF h']
    by (simp add: list_all_iff)
qed

section \<open>Properties of the application\<close>

lemmas app_defs = run_def initial_def click_webcam_def click_upload_def handleFileUpload_def
  click_detection_def click_record_def click_download_def getUserMedia_then_def getUserMedia_catch_def
  recorder_stopped_def video_progress_def animation_frame_def rerender_def render_def commit_refs_def
  rendered_video_def webcam_effect_def webcam_cleanup_def recording_effect_def detect_def
  truthy_def new_video_def MediaRecorder_start_def MediaRecorder_stop_def ondataavailable_def onstop_def
  blob_size_def track_stop_def downloadRecording_def Let_def

lemma commit_refs_flags:
  "isDetecting (commit_refs s) = isDetecting s" "isRecording (commit_refs s) = isRecording s"
  by (simp_all add: commit_refs_def split: option.splits)

lemma webcam_cleanup_flags:
  "isDetecting (webcam_cleanup s) = isDetecting s" "isRecording (webcam_cleanup s) = isRecording s"
  by (simp_all add: webcam_cleanup_def split: option.splits)

lemma webcam_effect_flags:
  "isDetecting (webcam_effect snap s) = isDetecting s" "isRecording (webcam_effect snap s) = isRecording s"
  by (simp_all add: webcam_effect_def)

lemma recording_effect_flags:
  "isDetecting (recording_effect snap s) = isDetecting s" "isRecording (recording_effect snap s) = isRecording s"
  by (simp_all add: recording_effect_def split: option.splits sum.splits)

lemma detect_flags:
  "isDetecting (detect snap s) = isDetecting s" "isRecording (detect snap s) = isRecording s"
  by (simp_all add: detect_def Let_def split: option.splits prod.splits)

lemmas flags = commit_refs_flags webcam_cleanup_flags webcam_effect_flags recording_effect_flags
  detect_flags

lemma render_flags:
  "isDetecting (render prev s) = isDetecting s" "isRecording (render prev s) = isRecording s"
  by (simp_all add: render_def Let_def flags)

lemma rerender_flags:
  "isDetecting (rerender prev s) = isDetecting s" "isRecording (rerender prev s) = isRecording s"
  by (simp_all add: rerender_def Let_def render_flags)

lemma detect_uncaught: "uncaught (detect snap s) = uncaught s"
  by (simp add: detect_def Let_def split: option.splits prod.splits)

lemma click_webcam_stops_detection: "\<not> isDetecting (click_webcam s)"
  by (simp add: click_webcam_def Let_def rerender_flags)

lemma click_upload_stops_detection: "\<not> isDetecting (click_upload s)"
  by (simp add: click_upload_def Let_def rerender_flags)

lemma streams_kept:
  "media_streams (commit_refs s) = media_streams s"
  "media_streams (webcam_effect snap s) = media_streams s"
  "media_streams (recording_effect snap s) = media_streams s"
  "media_streams (detect snap s) = media_streams s"
  by (simp_all add: commit_refs_def webcam_effect_def recording_effect_def detect_def Let_def
      split: option.splits sum.splits prod.splits)

lemma webcam_cleanup_detached:
  "map_option srcObject (videoRef s) \<in> {None, Some None} \<Longrightarrow> webcam_cleanup s = s"
  by (auto simp add: webcam_cleanup_def split: option.splits)

lemma render_streams_no_cleanup:
  assumes "\<not> (videoSource prev = Some Webcam \<and> (videoSource prev, uploadedVideo prev) \<noteq> (videoSource s, uploadedVideo s))"
  shows "media_streams (render prev s) = media_streams s"
  using assms by (simp add: render_def Let_def streams_kept)

lemma commit_refs_switch:
  assumes "map_option kind (videoRef s) = Some webcam_video" "videoSource s \<noteq> Some Webcam"
  shows "map_option srcObject (videoRef (commit_refs s)) \<in> {None, Some None}"
  using assms
  by (auto simp add: commit_refs_def rendered_video_def new_video_def split: option.splits if_splits)

lemma render_streams_switch:
  assumes "map_option kind (videoRef s) = Some webcam_video" "videoSource s \<noteq> Some Webcam"
  shows "media_streams (render prev s) = media_streams s"
  using webcam_cleanup_detached [OF commit_refs_switch [OF assms]]
  by (simp add: render_def Let_def streams_kept)

lemma click_upload_keeps_streams:
  assumes "videoSource s = Some Webcam" "map_option kind (videoRef s) = Some webcam_video"
  shows "media_streams (click_upload s) = media_streams s"
proof -
  let ?s2 = "(if isDetecting s then s\<lparr>videoSource := Some File, isDetecting := False\<rparr>
             else s\<lparr>videoSource := Some File\<rparr>)"
  have k: "map_option kind (videoRef ?s2) = Some webcam_video" "videoSource ?s2 \<noteq> Some Webcam"
    using assms by simp_all
  have 1: "media_streams (render s ?s2) = media_streams s"
    using render_streams_switch [OF k, of s] by simp
  have "videoSource ?s2 = Some File" by simp
  then have 2: "media_streams (render ?s2 (render s ?s2)) = media_streams (render s ?s2)"
    by (intro render_streams_no_cleanup) simp
  show ?thesis
    using 1 2 by (simp add: click_upload_def rerender_def Let_def)
qed

lemmas mock_defs = mockDetection_def Math_random_def Math_floor_def
  array_get_def DETECTION_CLASSES_def eval_nat_numeral draw_box_def Math_round_def

text \<open>
  C10. Outside of any provider \<open>useAppContext\<close> throws the error with the message of the
  source; under a provider it returns the value of the nearest one.
\<close>

theorem useAppContext_provider:
  "useAppContext [] = Inl (Error ''useAppContext must be used within an AppProvider'') \<and>
   useAppContext (v # vs) = Inr v"
  by (simp add: useAppContext_def useContext_def)

text \<open>
  C5. Two recording sessions on one camera stream. The first session delivers the chunk
  \<open>[1, 2]\<close> and leaves it in \<open>recordedChunks\<close>. Starting the second session empties
  \<open>recordedChunks\<close>, but the array \<open>chunks\<close> that the handlers of the recorder close over
  still holds the first chunk; when the second session stops with the chunk \<open>[3]\<close>,
  \<open>recordedChunks\<close> holds both chunks, the one of the first session first.
\<close>

theorem second_recording_keeps_first_chunks:
  "recordedChunks (run [ClickWebcam, CameraGranted 1, ClickDetection,
       ClickRecord, ClickRecord, RecorderStopped \<lparr>bytes = [1, 2], blob_type = ''video/webm''\<rparr>]
     (initial rnd))
   = [\<lparr>bytes = [1, 2], blob_type = ''video/webm''\<rparr>] \<and>
   recordedChunks (run [ClickWebcam, CameraGranted 1, ClickDetection,
       ClickRecord, ClickRecord, RecorderStopped \<lparr>bytes = [1, 2], blob_type = ''video/webm''\<rparr>,
       ClickRecord]
     (initial rnd))
   = [] \<and>
   recordedChunks (run [ClickWebcam, CameraGranted 1, ClickDetection,
       ClickRecord, ClickRecord, RecorderStopped \<lparr>bytes = [1, 2], blob_type = ''video/webm''\<rparr>,
       ClickRecord, ClickRecord, RecorderStopped \<lparr>bytes = [3], blob_type = ''video/webm''\<rparr>]
     (initial rnd))
   = [\<lparr>bytes = [1, 2], blob_type = ''video/webm''\<rparr>, \<lparr>bytes = [3], blob_type = ''video/webm''\<rparr>]"
  by (simp add: app_defs)

lemma recordedChunks_kept:
  "recordedChunks (commit_refs s) = recordedChunks s"
  "recordedChunks (webcam_cleanup s) = recordedChunks s"
  "recordedChunks (webcam_effect snap s) = recordedChunks s"
  "recordedChunks (detect snap s) = recordedChunks s"
  by (simp_all add: commit_refs_def webcam_cleanup_def webcam_effect_def detect_def Let_def
      split: option.splits prod.splits)

lemma recording_effect_empty:
  "recordedChunks s = [] \<Longrightarrow> recordedChunks (recording_effect snap s) = []"
  by (simp add: recording_effect_def split: option.splits sum.splits)

lemma render_empty: "recordedChunks s = [] \<Longrightarrow> recordedChunks (render prev s) = []"
  by (simp add: render_def Let_def recordedChunks_kept recording_effect_empty)

lemma rerender_empty: "recordedChunks s = [] \<Longrightarrow> recordedChunks (rerender prev s) = []"
  by (simp add: rerender_def Let_def render_empty)

lemma first_stop_without_chunks:
  assumes "mediaRecorder s = Some r" "stop_pending r" "chunks r = []" "blob_size data = 0"
  shows "recordedChunks (recorder_stopped data s) = []"
  using assms
  by (simp add: recorder_stopped_def onstop_def ondataavailable_def Let_def rerender_empty)

text \<open>
  C6, as the code has it. With no recorded chunk \<open>downloadRecording\<close> returns at once:
  the state is as before, so nothing is downloaded, no exception is raised, and nothing is
  reported by an alert or on the console; the function returns \<^verbatim>\<open>undefined\<close> as it does
  after a download, so no failure reaches the caller. A click on the download button does
  nothing either. The list is empty when a recorder that has collected no chunk so far is
  stopped and delivers no data.
\<close>

theorem downloadRecording_nothing_recorded:
  "(recordedChunks s = [] \<longrightarrow>
      downloadRecording s = s \<and> click_download s = s \<and>
      downloads (downloadRecording s) = downloads s \<and>
      uncaught (downloadRecording s) = uncaught s \<and>
      alerts (downloadRecording s) = alerts s \<and>
      console (downloadRecording s) = console s) \<and>
   (mediaRecorder s = Some r \<and> stop_pending r \<and> chunks r = [] \<and> blob_size data = 0 \<longrightarrow>
      recordedChunks (recorder_stopped data s) = [])"
  by (simp add: downloadRecording_def click_download_def first_stop_without_chunks)

text \<open>
  C6 as stated fails, in two ways. When the first session is stopped with no chunk, the
  list is empty and the export returns with nothing raised and nothing reported: no failure
  named NothingRecorded, or any other, is signalled. And when a second session on the same
  stream is stopped with no chunk appended, the list still holds the chunk \<open>[1, 2]\<close> of the
  first session, the download button is there, and the export downloads that chunk.
\<close>

theorem export_counterexample:
  "recordedChunks (run [ClickWebcam, CameraGranted 1, ClickDetection, ClickRecord, ClickRecord,
       RecorderStopped \<lparr>bytes = [], blob_type = ''video/webm''\<rparr>] (initial (sconst 0))) = [] \<and>
   uncaught (downloadRecording (run [ClickWebcam, CameraGranted 1, ClickDetection, ClickRecord,
       ClickRecord, RecorderStopped \<lparr>bytes = [], blob_type = ''video/webm''\<rparr>]
       (initial (sconst 0)))) = [] \<and>
   alerts (downloadRecording (run [ClickWebcam, CameraGranted 1, ClickDetection, ClickRecord,
       ClickRecord, RecorderStopped \<lparr>bytes = [], blob_type = ''video/webm''\<rparr>]
       (initial (sconst 0)))) = [] \<and>
   console (downloadRecording (run [ClickWebcam, CameraGranted 1, ClickDetection, ClickRecord,
       ClickRecord, RecorderStopped \<lparr>bytes = [], blob_type = ''video/webm''\<rparr>]
       (initial (sconst 0)))) = [] \<and>
   recordedChunks (run [ClickWebcam, CameraGranted 1, ClickDetection,
       ClickRecord, ClickRecord, RecorderStopped \<lparr>bytes = [1, 2], blob_type = ''video/webm''\<rparr>,
       ClickRecord, ClickRecord, RecorderStopped \<lparr>bytes = [], blob_type = ''video/webm''\<rparr>]
       (initial (sconst 0)))
     = [\<lparr>bytes = [1, 2], blob_type = ''video/webm''\<rparr>] \<and>
   downloads (run [ClickWebcam, CameraGranted 1, ClickDetection,
       ClickRecord, ClickRecord, RecorderStopped \<lparr>bytes = [1, 2], blob_type = ''video/webm''\<rparr>,
       ClickRecord, ClickRecord, RecorderStopped \<lparr>bytes = [], blob_type = ''video/webm''\<rparr>,
       ClickDownload]
       (initial (sconst 0)))
     = [(''detection-recording.webm'', \<lparr>bytes = [1, 2], blob_type = ''video/webm''\<rparr>)]"
  by (simp add: app_defs new_Blob_def)

theorem downloadRecording_nothing_recorded_witness:
  "recordedChunks (run [ClickWebcam, CameraGranted 1, ClickDetection, ClickRecord, ClickRecord,
       RecorderStopped \<lparr>bytes = [], blob_type = ''video/webm''\<rparr>] (initial (sconst 0))) = [] \<and>
   downloads (downloadRecording (run [ClickWebcam, CameraGranted 1, ClickDetection, ClickRecord,
       ClickRecord, RecorderStopped \<lparr>bytes = [], blob_type = ''video/webm''\<rparr>]
       (initial (sconst 0)))) = [] \<and>
   mediaRecorder (run [ClickWebcam, CameraGranted 1, ClickDetection, ClickRecord, ClickRecord]
       (initial (sconst 0)))
     = Some \<lparr>stream = 0, state = inactive, stop_pending = True, chunks = []\<rparr> \<and>
   recordedChunks (recorder_stopped \<lparr>bytes = [], blob_type = ''video/webm''\<rparr>
       (run [ClickWebcam, CameraGranted 1, ClickDetection, ClickRecord, ClickRecord]
         (initial (sconst 0)))) = []"
proof -
  let ?stopped = "run [ClickWebcam, CameraGranted 1, ClickDetection, ClickRecord, ClickRecord,
       RecorderStopped \<lparr>bytes = [], blob_type = ''video/webm''\<rparr>] (initial (sconst 0))"
  let ?stopping = "run [ClickWebcam, CameraGranted 1, ClickDetection, ClickRecord, ClickRecord]
       (initial (sconst 0))"
  let ?r = "\<lparr>stream = 0, state = inactive, stop_pending = True, chunks = []\<rparr>"
  let ?data = "\<lparr>bytes = [], blob_type = ''video/webm''\<rparr>"
  have h: "recordedChunks ?stopped = []"
    by (simp add: app_defs)
  have d: "downloads ?stopped = []"
    by (simp add: app_defs)
  have r: "mediaRecorder ?stopping = Some ?r"
    by (simp add: app_defs)
  have p: "stop_pending ?r \<and> chunks ?r = [] \<and> blob_size ?data = 0"
    by (simp add: blob_size_def)
  show ?thesis
    using h d r p
      downloadRecording_nothing_recorded [of ?stopped ?r ?data]
      downloadRecording_nothing_recorded [of ?stopping ?r ?data]
    by simp
qed

text \<open>
  The detection loop. C7 speaks of a cycle in which the call of the adapter fails. The
  loop calls \<open>mockDetection\<close>, which returns a list for every threshold and every random
  source, and \<open>detect\<close> has no path on which the call fails, so no cycle of the code is of
  that kind. This holds of every call of \<open>detect\<close>: no exception leaves it; when
  detection is on, there is a video, both refs are set and the canvas gives a context, it
  requests the next animation frame; and when the video is ready as well, the detection
  list becomes the result of \<open>mockDetection\<close> and every detection is drawn.
\<close>

theorem detect_every_cycle:
  "uncaught (detect snap s) = uncaught s \<and>
   (isDetecting snap \<and> hasVideo snap \<and> videoRef s = Some v \<and> canvasRef s = Some c \<and>
    context_2d c \<longrightarrow>
      animationFrame (detect snap s) \<and>
      (readyState v = 4 \<longrightarrow>
         detectionResults (detect snap s)
           = fst (mockDetection (confidenceThreshold snap) (random s)) \<and>
         map_option (\<lambda>c. length (boxes c)) (canvasRef (detect snap s))
           = Some (length (fst (mockDetection (confidenceThreshold snap) (random s))))))"
proof -
  have never_throws: "uncaught (detect snap s) = uncaught s"
    by (rule detect_uncaught)
  have continues:
    "isDetecting snap \<and> hasVideo snap \<and> videoRef s = Some v \<and> canvasRef s = Some c \<and>
     context_2d c \<longrightarrow>
      animationFrame (detect snap s) \<and>
      (readyState v = 4 \<longrightarrow>
         detectionResults (detect snap s)
           = fst (mockDetection (confidenceThreshold snap) (random s)) \<and>
         map_option (\<lambda>c. length (boxes c)) (canvasRef (detect snap s))
           = Some (length (fst (mockDetection (confidenceThreshold snap) (random s)))))"
    by (simp add: detect_def Let_def split: prod.splits)
  show ?thesis
    using never_throws continues by (intro conjI)
qed

text \<open>
  Detection runs on an uploaded video that is ready, with a random source that always
  returns one half: the first cycle has found five detections and requested the next frame,
  and so does the cycle after it.
\<close>

lemma detecting_on_file:
  fixes before :: App
  defines "before \<equiv> run [ClickUpload, ChooseFile (Some ''blob:video''), VideoProgress 4 640 480,
                      ClickDetection] (initial (sconst (1 / 2)))"
  shows "isDetecting before" "hasVideo before" "animationFrame before" "uncaught before = []"
    "videoRef before = Some \<lparr>kind = file_video, srcObject = None, readyState = 4,
                          videoWidth = 640, videoHeight = 480\<rparr>"
    "map_option (\<lambda>c. length (boxes c)) (canvasRef before) = Some 5"
    "map_option context_2d (canvasRef before) = Some True"
    "length (detectionResults before) = 5"
  unfolding before_def by (simp_all add: app_defs mock_defs)

theorem detect_every_cycle_witness:
  "uncaught (detect
      (run [ClickUpload, ChooseFile (Some ''blob:video''), VideoProgress 4 640 480, ClickDetection]
        (initial (sconst (1 / 2))))
      ((run [ClickUpload, ChooseFile (Some ''blob:video''), VideoProgress 4 640 480, ClickDetection]
        (initial (sconst (1 / 2))))\<lparr>animationFrame := False\<rparr>)) = [] \<and>
   animationFrame (detect
      (run [ClickUpload, ChooseFile (Some ''blob:video''), VideoProgress 4 640 480, ClickDetection]
        (initial (sconst (1 / 2))))
      ((run [ClickUpload, ChooseFile (Some ''blob:video''), VideoProgress 4 640 480, ClickDetection]
        (initial (sconst (1 / 2))))\<lparr>animationFrame := False\<rparr>))"
proof -
  let ?before = "run [ClickUpload, ChooseFile (Some ''blob:video''), VideoProgress 4 640 480,
                  ClickDetection] (initial (sconst (1 / 2)))"
  let ?fired = "?before\<lparr>animationFrame := False\<rparr>"
  let ?v = "\<lparr>kind = file_video, srcObject = None, readyState = 4,
             videoWidth = 640, videoHeight = 480\<rparr>"
  obtain c where c: "canvasRef ?before = Some c" "context_2d c"
    using detecting_on_file(7) by (cases "canvasRef ?before") auto
  have g: "isDetecting ?before \<and> hasVideo ?before \<and> videoRef ?fired = Some ?v \<and>
           canvasRef ?fired = Some c \<and> context_2d c"
    by (simp add: detecting_on_file c)
  have u: "uncaught ?fired = []"
    by (simp add: detecting_on_file)
  show ?thesis
    using g u detect_every_cycle [of ?before ?fired ?v c]
    by simp
qed

text \<open>
  C8, as the code has it. The handler of a denied camera request leaves the detecting flag
  and the recording flag as they are and, when a request is outstanding, shows its alert and
  writes its message to the console. The detecting flag is false after every click on the
  webcam button, which is what requests the camera.
\<close>

theorem camera_denied_keeps_flags:
  "isDetecting (getUserMedia_catch s) = isDetecting s \<and>
   isRecording (getUserMedia_catch s) = isRecording s \<and>
   \<not> isDetecting (click_webcam s) \<and>
   (0 < getUserMedia_pending s \<longrightarrow>
      alerts (getUserMedia_catch s) = alerts s @
        [''Unable to access webcam. Please make sure you have given permission.''] \<and>
      console (getUserMedia_catch s) = console s @ [''Error accessing webcam:''])"
  by (simp add: getUserMedia_catch_def click_webcam_stops_detection)

text \<open>
  C8 as stated fails. An uploaded video is showing when the user clicks the webcam button;
  \<open>hasVideo\<close> stays true while the permission prompt is open, so the control bar is still
  there and the user starts detection. Then the permission is denied: the alert is shown and
  the detecting flag is still true.
\<close>

theorem camera_denied_counterexample:
  "isDetecting (run [ClickUpload, ChooseFile (Some ''blob:video''), ClickWebcam, ClickDetection,
                     CameraDenied] (initial (sconst 0))) \<and>
   alerts (run [ClickUpload, ChooseFile (Some ''blob:video''), ClickWebcam, ClickDetection,
                CameraDenied] (initial (sconst 0)))
     = [''Unable to access webcam. Please make sure you have given permission.''] \<and>
   \<not> isDetecting (run [ClickUpload, ChooseFile (Some ''blob:video''), ClickWebcam]
                     (initial (sconst 0))) \<and>
   getUserMedia_pending (run [ClickUpload, ChooseFile (Some ''blob:video''), ClickWebcam, ClickDetection]
                     (initial (sconst 0))) = 1"
  by (simp add: app_defs)

theorem camera_denied_keeps_flags_witness:
  "0 < getUserMedia_pending (run [ClickWebcam] (initial (sconst 0))) \<and>
   \<not> isDetecting (getUserMedia_catch (run [ClickWebcam] (initial (sconst 0)))) \<and>
   alerts (getUserMedia_catch (run [ClickWebcam] (initial (sconst 0))))
     = [''Unable to access webcam. Please make sure you have given permission.''] \<and>
   console (getUserMedia_catch (run [ClickWebcam] (initial (sconst 0))))
     = [''Error accessing webcam:'']"
proof -
  have p: "0 < getUserMedia_pending (run [ClickWebcam] (initial (sconst 0)))"
    by (simp add: app_defs)
  have a: "alerts (run [ClickWebcam] (initial (sconst 0))) = []"
    by (simp add: app_defs)
  have d: "\<not> isDetecting (run [ClickWebcam] (initial (sconst 0)))"
    by (simp add: app_defs)
  have c: "console (run [ClickWebcam] (initial (sconst 0))) = []"
    by (simp add: app_defs)
  show ?thesis
    using p a d c camera_denied_keeps_flags [of "run [ClickWebcam] (initial (sconst 0))"]
    by simp
qed

text \<open>
  C9. Detection runs on the camera, whose stream has one track, when the user clicks the
  upload button. The detecting flag becomes false. The cleanup of the webcam effect runs
  after the commit, when the \<^verbatim>\<open><video>\<close> element of the camera is no longer rendered and
  \<^verbatim>\<open>videoRef.current\<close> no longer points to it, so it stops no track: the track of the
  camera has received no call of \<^verbatim>\<open>stop()\<close>.
\<close>

theorem switch_to_file_leaves_camera_running:
  "isDetecting (run [ClickWebcam, CameraGranted 1, ClickDetection] (initial rnd)) \<and>
   map_option srcObject (videoRef (run [ClickWebcam, CameraGranted 1, ClickDetection] (initial rnd)))
     = Some (Some 0) \<and>
   media_streams (run [ClickWebcam, CameraGranted 1, ClickDetection] (initial rnd))
     = [[\<lparr>stop_calls = 0\<rparr>]] \<and>
   \<not> isDetecting (run [ClickWebcam, CameraGranted 1, ClickDetection, ClickUpload] (initial rnd)) \<and>
   videoRef (run [ClickWebcam, CameraGranted 1, ClickDetection, ClickUpload] (initial rnd)) = None \<and>
   media_streams (run [ClickWebcam, CameraGranted 1, ClickDetection, ClickUpload] (initial rnd))
     = [[\<lparr>stop_calls = 0\<rparr>]]"
  by (simp add: app_defs)

text \<open>
  Switching the source stops detection in every state, and in every state in which the
  camera element is the one rendered, switching to the file stops no track of any stream.
\<close>

theorem switch_source:
  "\<not> isDetecting (click_upload s) \<and> \<not> isDetecting (click_webcam s) \<and>
   (videoSource s = Some Webcam \<and> map_option kind (videoRef s) = Some webcam_video \<longrightarrow>
      media_streams (click_upload s) = media_streams s)"
  by (simp add: click_upload_stops_detection click_webcam_stops_detection click_upload_keeps_streams)

theorem switch_source_witness:
  "videoSource (run [ClickWebcam, CameraGranted 2, ClickDetection] (initial (sconst 0))) = Some Webcam \<and>
   map_option kind (videoRef (run [ClickWebcam, CameraGranted 2, ClickDetection] (initial (sconst 0))))
     = Some webcam_video \<and>
   media_streams (click_upload (run [ClickWebcam, CameraGranted 2, ClickDetection] (initial (sconst 0))))
     = [[\<lparr>stop_calls = 0\<rparr>, \<lparr>stop_calls = 0\<rparr>]]"
proof -
  let ?s = "run [ClickWebcam, CameraGranted 2, ClickDetection] (initial (sconst 0))"
  have h: "videoSource ?s = Some Webcam" "map_option kind (videoRef ?s) = Some webcam_video"
    by (simp_all add: app_defs)
  have m: "media_streams ?s = [[\<lparr>stop_calls = 0\<rparr>, \<lparr>stop_calls = 0\<rparr>]]"
    by (simp add: app_defs eval_nat_numeral)
  show ?thesis
    using h m switch_source [of ?s] by simp
qed

lemma source_kept:
  "videoSource (commit_refs s) = videoSource s \<and> uploadedVideo (commit_refs s) = uploadedVideo s"
  "videoSource (webcam_cleanup s) = videoSource s \<and> uploadedVideo (webcam_cleanup s) = uploadedVideo s"
  "videoSource (webcam_effect snap s) = videoSource s \<and> uploadedVideo (webcam_effect snap s) = uploadedVideo s"
  "videoSource (recording_effect snap s) = videoSource s \<and> uploadedVideo (recording_effect snap s) = uploadedVideo s"
  "videoSource (detect snap s) = videoSource s \<and> uploadedVideo (detect snap s) = uploadedVideo s"
  by (simp_all add: commit_refs_def webcam_cleanup_def webcam_effect_def recording_effect_def
      detect_def Let_def split: option.splits sum.splits prod.splits)

lemma render_source:
  "videoSource (render prev s) = videoSource s" "uploadedVideo (render prev s) = uploadedVideo s"
  by (simp_all add: render_def Let_def source_kept)

lemma rendered_video_cong:
  "videoSource s' = videoSource s \<Longrightarrow> uploadedVideo s' = uploadedVideo s \<Longrightarrow>
   rendered_video s' = rendered_video s"
  by (simp add: rendered_video_def)

lemma kind_kept:
  "map_option kind (videoRef (webcam_cleanup s)) = map_option kind (videoRef s)"
  "map_option kind (videoRef (webcam_effect snap s)) = map_option kind (videoRef s)"
  "map_option kind (videoRef (recording_effect snap s)) = map_option kind (videoRef s)"
  "map_option kind (videoRef (detect snap s)) = map_option kind (videoRef s)"
  by (simp_all add: webcam_cleanup_def webcam_effect_def recording_effect_def
      detect_def Let_def split: option.splits sum.splits prod.splits)

lemma commit_refs_matches: "map_option kind (videoRef (commit_refs s)) = rendered_video s"
  by (simp add: commit_refs_def new_video_def split: option.splits)

lemma render_matches: "ref_matches (render prev s)"
  unfolding ref_matches_def
  by (simp add: rendered_video_cong [OF render_source] )
     (simp add: render_def Let_def kind_kept commit_refs_matches)

lemma rerender_matches: "ref_matches (rerender prev s)"
  by (simp add: rerender_def Let_def render_matches)


lemma rerender_streams:
  assumes "\<not> (videoSource prev = Some Webcam \<and> (videoSource prev, uploadedVideo prev) \<noteq> (videoSource s, uploadedVideo s))
           \<or> (map_option kind (videoRef s) = Some webcam_video \<and> videoSource s \<noteq> Some Webcam)"
  shows "media_streams (rerender prev s) = media_streams s"
proof -
  have 1: "media_streams (render prev s) = media_streams s"
    using assms render_streams_no_cleanup [of prev s] render_streams_switch [of s prev] by blast
  have 2: "media_streams (render s (render prev s)) = media_streams (render prev s)"
    by (rule render_streams_no_cleanup) (simp add: render_source)
  show ?thesis using 1 2 by (simp add: rerender_def Let_def)
qed

lemma step_click_webcam:
  assumes "ref_matches s" "untouched s"
  shows "ref_matches (click_webcam s) \<and> untouched (click_webcam s)"
proof -
  let ?s2 = "(if isDetecting s then s\<lparr>videoSource := Some Webcam, isDetecting := False\<rparr>
             else s\<lparr>videoSource := Some Webcam\<rparr>)"
  have "media_streams (rerender s ?s2) = media_streams ?s2"
    by (rule rerender_streams) auto
  then show ?thesis
    using assms(2) by (simp add: click_webcam_def Let_def rerender_matches untouched_def)
qed

lemma step_click_upload:
  assumes "ref_matches s" "untouched s"
  shows "ref_matches (click_upload s) \<and> untouched (click_upload s)"
proof -
  let ?s2 = "(if isDetecting s then s\<lparr>videoSource := Some File, isDetecting := False\<rparr>
             else s\<lparr>videoSource := Some File\<rparr>)"
  have "media_streams (rerender s ?s2) = media_streams ?s2"
    using assms(1)
    by (intro rerender_streams) (auto simp: ref_matches_def rendered_video_def split: if_splits)
  then show ?thesis
    using assms(2) by (simp add: click_upload_def Let_def rerender_matches untouched_def)
qed

lemma step_handleFileUpload:
  assumes "ref_matches s" "untouched s"
  shows "ref_matches (handleFileUpload chosen s) \<and> untouched (handleFileUpload chosen s)"
proof (cases "chosen \<noteq> None \<and> \<not> hasVideo s \<and> videoSource s = Some File")
  case True
  then obtain url where u: "chosen = Some url" by auto
  have "media_streams (rerender s (s\<lparr>uploadedVideo := Some url\<rparr>)) = media_streams (s\<lparr>uploadedVideo := Some url\<rparr>)"
    using True by (intro rerender_streams) auto
  then show ?thesis
    using assms(2) True u by (simp add: handleFileUpload_def rerender_matches untouched_def)
next
  case False
  then show ?thesis using assms by (auto simp: handleFileUpload_def split: option.splits)
qed

lemma step_simple_rerender:
  assumes "untouched s'" "videoSource s' = videoSource s" "uploadedVideo s' = uploadedVideo s"
  shows "ref_matches (rerender s s') \<and> untouched (rerender s s')"
proof -
  have "media_streams (rerender s s') = media_streams s'"
    using assms by (intro rerender_streams) auto
  then show ?thesis using assms(1) by (simp add: rerender_matches untouched_def)
qed

lemma step_click_detection:
  assumes "ref_matches s" "untouched s"
  shows "ref_matches (click_detection s) \<and> untouched (click_detection s)"
  using assms step_simple_rerender [of "s\<lparr>isDetecting := \<not> isDetecting s\<rparr>" s]
  by (simp add: click_detection_def untouched_def)

lemma step_click_record:
  assumes "ref_matches s" "untouched s"
  shows "ref_matches (click_record s) \<and> untouched (click_record s)"
  using assms step_simple_rerender [of "s\<lparr>isRecording := \<not> isRecording s\<rparr>" s]
  by (simp add: click_record_def untouched_def)

lemma step_click_download:
  "ref_matches (click_download s) = ref_matches s \<and> untouched (click_download s) = untouched s"
  by (simp add: click_download_def downloadRecording_def Let_def untouched_def ref_matches_def
      rendered_video_def)

lemma step_catch:
  "ref_matches (getUserMedia_catch s) = ref_matches s \<and>
   untouched (getUserMedia_catch s) = untouched s"
  by (simp add: getUserMedia_catch_def untouched_def ref_matches_def rendered_video_def)

lemma step_video_progress:
  "ref_matches (video_progress rs w h s) = ref_matches s \<and>
   untouched (video_progress rs w h s) = untouched s"
proof (cases "videoRef s")
  case None
  then show ?thesis by (simp add: video_progress_def)
next
  case (Some video)
  then show ?thesis
    by (simp add: video_progress_def untouched_def ref_matches_def rendered_video_def)
qed

lemma step_then:
  assumes "ref_matches s" "untouched s"
  shows "ref_matches (getUserMedia_then n s) \<and> untouched (getUserMedia_then n s)"
proof (cases "getUserMedia_pending s = 0")
  case True
  then show ?thesis using assms by (simp add: getUserMedia_then_def)
next
  case False
  let ?s1 = "s\<lparr>getUserMedia_pending := getUserMedia_pending s - 1,
                media_streams := media_streams s @ [replicate n \<lparr>stop_calls = 0\<rparr>]\<rparr>"
  have u1: "untouched ?s1" using assms(2) by (simp add: untouched_def list_all_iff)
  have m1: "ref_matches ?s1" using assms(1) by (simp add: ref_matches_def rendered_video_def)
  show ?thesis
  proof (cases "videoRef s")
    case None
    then show ?thesis using False u1 m1 by (simp add: getUserMedia_then_def Let_def)
  next
    case (Some video)
    let ?s2 = "?s1\<lparr>videoRef := Some (video\<lparr>srcObject := Some (length (media_streams s))\<rparr>),
                     hasVideo := True,
                     mediaRecorder := Some \<lparr>stream = length (media_streams s), state = inactive,
                                             stop_pending = False, chunks = []\<rparr>\<rparr>"
    have "ref_matches (rerender ?s1 ?s2) \<and> untouched (rerender ?s1 ?s2)"
      using u1 by (intro step_simple_rerender) (simp_all add: untouched_def)
    then show ?thesis using False Some by (simp add: getUserMedia_then_def Let_def)
  qed
qed

lemma step_recorder_stopped:
  assumes "ref_matches s" "untouched s"
  shows "ref_matches (recorder_stopped data s) \<and> untouched (recorder_stopped data s)"
proof (cases "mediaRecorder s")
  case None
  then show ?thesis using assms by (simp add: recorder_stopped_def)
next
  case (Some r)
  show ?thesis
  proof (cases "stop_pending r")
    case False
    then show ?thesis using assms Some by (simp add: recorder_stopped_def)
  next
    case True
    let ?r = "(ondataavailable data r)\<lparr>stop_pending := False\<rparr>"
    let ?s1 = "s\<lparr>mediaRecorder := Some ?r\<rparr>"
    have "ref_matches (rerender ?s1 (?s1\<lparr>recordedChunks := chunks ?r\<rparr>)) \<and>
          untouched (rerender ?s1 (?s1\<lparr>recordedChunks := chunks ?r\<rparr>))"
      using assms(2) by (intro step_simple_rerender) (simp_all add: untouched_def)
    then show ?thesis using True Some by (simp add: recorder_stopped_def onstop_def Let_def)
  qed
qed

lemma step_animation_frame:
  assumes "ref_matches s" "untouched s"
  shows "ref_matches (animation_frame s) \<and> untouched (animation_frame s)"
proof (cases "animationFrame s")
  case False
  then show ?thesis using assms by (simp add: animation_frame_def)
next
  case True
  let ?s' = "detect s (s\<lparr>animationFrame := False\<rparr>)"
  have "ref_matches (rerender s ?s') \<and> untouched (rerender s ?s')"
    using assms(2)
    by (intro step_simple_rerender) (simp_all add: untouched_def streams_kept source_kept)
  then show ?thesis using True by (simp add: animation_frame_def)
qed

lemma step_invariant:
  assumes "ref_matches s \<and> untouched s"
  shows "ref_matches (step e s) \<and> untouched (step e s)"
  using assms
  by (cases e)
     (simp_all add: step_click_webcam step_click_upload step_handleFileUpload step_click_detection
        step_click_record step_click_download step_then step_catch step_recorder_stopped
        step_video_progress step_animation_frame)

lemma run_invariant:
  "ref_matches s \<and> untouched s \<Longrightarrow> ref_matches (run es s) \<and> untouched (run es s)"
  unfolding run_def
proof (induction es arbitrary: s)
  case Nil
  then show ?case by simp
next
  case (Cons e es)
  show ?case
    using Cons.IH [OF step_invariant [OF Cons.prems]] by simp
qed

lemma initial_invariant: "ref_matches (initial rnd) \<and> untouched (initial rnd)"
  by (simp add: initial_def ref_matches_def untouched_def rendered_video_def)

text \<open>
  In every run from the initial state, whatever the user clicks and whatever the browser
  answers, no track of any camera stream ever receives a call of \<^verbatim>\<open>stop()\<close>: the cleanup
  of the webcam effect, the only place that stops tracks, never finds the stream.
\<close>

theorem no_track_ever_stopped:
  "list_all (list_all (\<lambda>t. stop_calls t = 0)) (media_streams (run es (initial rnd)))"
  using run_invariant [OF initial_invariant, of es rnd] by (simp add: untouched_def)

end
